theory Spec2Isabelle
  imports Main
begin

section \<open>Deploying custom object instances: the data model\<close>

text \<open>
  The development follows \<^verbatim>\<open>custom_object_instances_deploy.ts\<close> of the Salesforce adapter
  (\<^verbatim>\<open>src/unnamed/part_002\<close>, lines 84 to 426). Instances are mutable objects that the
  code shares by reference, so they live in a store and the lists the code passes around
  are lists of references. What the code imports from other modules (the client, the
  digest, the serializer, the transformers, the query builder, the identity-field lookup)
  is a parameter of the model.
\<close>

subsection \<open>Values\<close>

text \<open>
  A JavaScript value as it occurs in \<^verbatim>\<open>instance.value\<close> and in a fetched record. An object
  is the list of its own enumerable entries in insertion order; its keys are distinct.
  Keys are field names, which are not canonical array indices, so insertion order is the
  enumeration order. Numbers are the integral ones.
\<close>

datatype val =
    Undefined
  | Null
  | Bool bool
  | Num int
  | Str string
  | Arr "val list"
  | Obj "(string \<times> val) list"

type_synonym Values = "(string \<times> val) list"

text \<open>
  \<^verbatim>\<open>vals[fieldName]\<close>: a missing own property reads as \<^verbatim>\<open>undefined\<close>. A field name is not
  the name of a property that every object inherits.
\<close>

definition getProp :: "Values \<Rightarrow> string \<Rightarrow> val" where
  "getProp vals k = (case map_of vals k of None \<Rightarrow> Undefined | Some v \<Rightarrow> v)"

text \<open>
  \<^verbatim>\<open>vals[k] = v\<close>: an existing key keeps its place and takes the new value, a new key
  goes to the end.
\<close>

fun setProp :: "string \<Rightarrow> val \<Rightarrow> Values \<Rightarrow> Values" where
  "setProp k v [] = [(k, v)]"
| "setProp k v ((k', v') # kvs) =
     (if k' = k then (k, v) # kvs else (k', v') # setProp k v kvs)"

text \<open>\<^verbatim>\<open>Object.fromEntries\<close>: the entries are assigned one after the other.\<close>

definition fromEntries :: "(string \<times> val) list \<Rightarrow> Values" where
  "fromEntries es = foldl (\<lambda>obj (k, v). setProp k v obj) [] es"

definition CUSTOM_OBJECT_ID_FIELD :: string where
  "CUSTOM_OBJECT_ID_FIELD = ''Id''"

subsection \<open>Strings\<close>

text \<open>\<^verbatim>\<open>Array.prototype.join\<close> on an array of strings.\<close>

fun join :: "string \<Rightarrow> string list \<Rightarrow> string" where
  "join sep [] = []"
| "join sep [x] = x"
| "join sep (x # y # ys) = x @ sep @ join sep (y # ys)"

text \<open>The digit of a number below sixteen.\<close>

definition digit_char :: "nat \<Rightarrow> char" where
  "digit_char d = ''0123456789abcdef'' ! d"

text \<open>The decimal digits of an index, and the text of an integral number.\<close>

fun decimalDigits :: "nat \<Rightarrow> string" where
  "decimalDigits n =
     (if 10 \<le> n then decimalDigits (n div 10) else []) @ [digit_char (n mod 10)]"

definition numberText :: "int \<Rightarrow> string" where
  "numberText n =
     (if 0 \<le> n then decimalDigits (nat n) else CHR ''-'' # decimalDigits (nat (- n)))"

subsection \<open>Removing the nulls of a fetched record\<close>

text \<open>
  \<^verbatim>\<open>cloneWithoutNulls\<close> (lines 266 to 272) keeps the entries whose value is not
  \<^verbatim>\<open>null\<close> and clones every value that \<^verbatim>\<open>_.isObject\<close> accepts. An array is an object
  too: its entries are its elements under their indices, and the clone is a plain object.
\<close>

fun cloneWithoutNulls :: "Values \<Rightarrow> Values"
  and cloneArrayWithoutNulls :: "nat \<Rightarrow> val list \<Rightarrow> Values"
  and cloneValue :: "val \<Rightarrow> val"
where
  "cloneWithoutNulls [] = []"
| "cloneWithoutNulls ((k, v) # kvs) =
     (if v = Null then cloneWithoutNulls kvs else (k, cloneValue v) # cloneWithoutNulls kvs)"
| "cloneArrayWithoutNulls i [] = []"
| "cloneArrayWithoutNulls i (v # vs) =
     (if v = Null then cloneArrayWithoutNulls (Suc i) vs
      else (decimalDigits i, cloneValue v) # cloneArrayWithoutNulls (Suc i) vs)"
| "cloneValue (Obj kvs) = Obj (cloneWithoutNulls kvs)"
| "cloneValue (Arr vs) = Obj (cloneArrayWithoutNulls 0 vs)"
| "cloneValue Undefined = Undefined"
| "cloneValue Null = Null"
| "cloneValue (Bool b) = Bool b"
| "cloneValue (Num n) = Num n"
| "cloneValue (Str s) = Str s"


subsection \<open>Serializing\<close>

text \<open>
  The serializer \<^verbatim>\<open>safeJsonStringify\<close> (package adapter-utils) and the digest \<^verbatim>\<open>toMD5\<close>
  (package lowerdash) are not among the sources, and the model of the deployment takes
  both as parameters. For evaluating a hash on concrete values the serializer is modelled
  here, first the text of a string.
\<close>

definition hex2 :: "nat \<Rightarrow> string" where
  "hex2 n = [digit_char (n div 16), digit_char (n mod 16)]"

definition jsonEscapeChar :: "char \<Rightarrow> string" where
  "jsonEscapeChar c =
     (if c = CHR 0x22 then [CHR 0x5C, CHR 0x22]
      else if c = CHR 0x5C then [CHR 0x5C, CHR 0x5C]
      else if c = CHR 0x08 then [CHR 0x5C, CHR ''b'']
      else if c = CHR 0x0C then [CHR 0x5C, CHR ''f'']
      else if c = CHR 0x0A then [CHR 0x5C, CHR ''n'']
      else if c = CHR 0x0D then [CHR 0x5C, CHR ''r'']
      else if c = CHR 0x09 then [CHR 0x5C, CHR ''t'']
      else if (of_char c :: nat) < 32 then [CHR 0x5C, CHR ''u'', CHR ''0'', CHR ''0''] @ hex2 (of_char c)
      else [c])"

definition jsonQuote :: "string \<Rightarrow> string" where
  "jsonQuote s = [CHR 0x22] @ concat (map jsonEscapeChar s) @ [CHR 0x22]"

text \<open>
  Modelled from the spec: \<^verbatim>\<open>safeJsonStringify\<close> is missing. The spec calls it the canonical
  serialization of the ordered identity values and treats an undefined value as an absent
  one; the call at line 100 gives it the arguments of \<^verbatim>\<open>JSON.stringify\<close>. The model is
  \<^verbatim>\<open>JSON.stringify\<close> without indentation: an object member whose value is undefined is
  left out, an undefined array element is written \<^verbatim>\<open>null\<close>, members keep the order of the
  object.
\<close>

fun jsonValue :: "val \<Rightarrow> string"
  and jsonElements :: "val list \<Rightarrow> string list"
  and jsonMembers :: "(string \<times> val) list \<Rightarrow> string list"
where
  "jsonValue Undefined = ''null''"
| "jsonValue Null = ''null''"
| "jsonValue (Bool b) = (if b then ''true'' else ''false'')"
| "jsonValue (Num n) = numberText n"
| "jsonValue (Str s) = jsonQuote s"
| "jsonValue (Arr vs) = ''['' @ join '','' (jsonElements vs) @ '']''"
| "jsonValue (Obj kvs) = ''{'' @ join '','' (jsonMembers kvs) @ ''}''"
| "jsonElements [] = []"
| "jsonElements (v # vs) = jsonValue v # jsonElements vs"
| "jsonMembers [] = []"
| "jsonMembers ((k, v) # kvs) =
     (if v = Undefined then jsonMembers kvs
      else (jsonQuote k @ '':'' @ jsonValue v) # jsonMembers kvs)"

text \<open>
  Modelled from the spec: \<^verbatim>\<open>safeJsonStringify\<close> is missing; this is its model on the values
  of an instance or a record.
\<close>

definition jsonStringify :: "Values \<Rightarrow> string" where
  "jsonStringify vals = jsonValue (Obj vals)"

subsection \<open>Instances, records and results\<close>

text \<open>
  An \<^verbatim>\<open>InstanceElement\<close> is a mutable object; the code only writes its \<^verbatim>\<open>value\<close>. Of its
  type the code reads \<^verbatim>\<open>apiName(type)\<close> and \<^verbatim>\<open>isListCustomSettingsObject(type)\<close>, of its
  \<^verbatim>\<open>elemID\<close> the name. A \<^verbatim>\<open>Field\<close> is known by its name, the one thing the code reads of it.
\<close>

type_synonym ref = nat

type_synonym Field = string

type_synonym SalesforceRecord = Values

record ObjectType =
  typeApiName :: string
  listCustomSettings :: bool

record InstanceElement =
  elemName :: string
  instType :: ObjectType
  instValue :: Values

text \<open>
  \<^verbatim>\<open>BatchResultInfo\<close> of jsforce: every member is optional. \<^verbatim>\<open>success\<close> is only tested for
  truth, so a missing one is \<open>False\<close>.
\<close>

record BatchResultInfo =
  result_id :: "string option"
  result_success :: bool
  result_errors :: "string list option"

datatype operation = Insert | Update | Delete

text \<open>
  What is thrown: an \<^verbatim>\<open>Error\<close> the code makes, the \<^verbatim>\<open>TypeError\<close> of reading a property of
  \<^verbatim>\<open>undefined\<close>, or whatever a rejected client call carries.
\<close>

datatype error = Error string | TypeError | Rejected string

text \<open>
  The trace of the calls the code makes to the client, in the order it makes them: each
  call with the references of the instances it was made for, and what the client answered.
\<close>

datatype call =
    QueryAll string
  | BulkLoad string operation "ref list" "SalesforceRecord list"

datatype response =
    Rejection error
  | QueryRecords "SalesforceRecord list"
  | BulkResults "BatchResultInfo list"

type_synonym trace = "(call \<times> response) list"

record state =
  heap :: "ref \<Rightarrow> InstanceElement"
  log :: trace

text \<open>
  The client is any deterministic remote store: its answer may depend on every call made
  so far. \<open>Inl\<close> is a rejected promise.
\<close>

record client =
  queryAll :: "trace \<Rightarrow> string \<Rightarrow> error + SalesforceRecord list"
  bulkLoadOperation ::
    "trace \<Rightarrow> string \<Rightarrow> operation \<Rightarrow> SalesforceRecord list \<Rightarrow> error + BatchResultInfo list"

record DataManagement =
  includeObjects :: "string list"
  defaultIdFields :: "string list"

text \<open>
  The functions imported from other modules. \<open>buildQueries\<close> stands for lines 165 to 193
  of \<^verbatim>\<open>getRecordsBySaltoIds\<close>: the WHERE values of every instance and \<^verbatim>\<open>buildSelectQueries\<close>;
  it may throw. \<open>instanceApiName\<close> is \<^verbatim>\<open>apiName\<close> of an instance, \<open>None\<close> for
  \<^verbatim>\<open>undefined\<close>.
\<close>

record env =
  toMD5 :: "string \<Rightarrow> string"
  safeJsonStringify :: "Values \<Rightarrow> string"
  transformRecordToValues :: "ObjectType \<Rightarrow> SalesforceRecord \<Rightarrow> Values"
  instancesToCreateRecords :: "InstanceElement list \<Rightarrow> SalesforceRecord list"
  instancesToUpdateRecords :: "InstanceElement list \<Rightarrow> SalesforceRecord list"
  instancesToDeleteRecords :: "InstanceElement list \<Rightarrow> SalesforceRecord list"
  instanceApiName :: "InstanceElement \<Rightarrow> string option"
  buildQueries :: "ObjectType \<Rightarrow> InstanceElement list \<Rightarrow> Field list \<Rightarrow> error + string list"
  getIdFields :: "ObjectType \<Rightarrow> DataManagement \<Rightarrow> Field list \<times> string list option"

record ActionResult =
  successInstances :: "ref list"
  errorMessages :: "string list"

datatype Change = Addition ref | Removal ref | Modification ref ref

record DeployResult =
  appliedChanges :: "Change list"
  errors :: "error list"

type_synonym InstanceAndResult = "ref \<times> BatchResultInfo option"

subsection \<open>Calling the client\<close>

definition logged :: "state \<Rightarrow> call \<Rightarrow> response \<Rightarrow> state" where
  "logged s c r = s\<lparr>log := log s @ [(c, r)]\<rparr>"

definition callBulkLoadOperation ::
  "client \<Rightarrow> string \<Rightarrow> operation \<Rightarrow> ref list \<Rightarrow> SalesforceRecord list \<Rightarrow> state
     \<Rightarrow> (error + BatchResultInfo list) \<times> state" where
  "callBulkLoadOperation cl typeName oper refs records s =
     (let r = bulkLoadOperation cl (log s) typeName oper records
      in (r, logged s (BulkLoad typeName oper refs records)
               (case r of Inl e \<Rightarrow> Rejection e | Inr results \<Rightarrow> BulkResults results)))"

definition callQueryAll ::
  "client \<Rightarrow> string \<Rightarrow> state \<Rightarrow> (error + SalesforceRecord list) \<times> state" where
  "callQueryAll cl query s =
     (let r = queryAll cl (log s) query
      in (r, logged s (QueryAll query)
               (case r of Inl e \<Rightarrow> Rejection e | Inr records \<Rightarrow> QueryRecords records)))"

text \<open>What a run added to the trace, and the records its queries fetched.\<close>

definition newCalls :: "state \<Rightarrow> state \<Rightarrow> trace" where
  "newCalls s s' = drop (length (log s)) (log s')"

fun fetchedRecords :: "trace \<Rightarrow> SalesforceRecord list" where
  "fetchedRecords [] = []"
| "fetchedRecords ((QueryAll query, QueryRecords records) # tr) = records @ fetchedRecords tr"
| "fetchedRecords ((c, resp) # tr) = fetchedRecords tr"

subsection \<open>Per-record results\<close>

text \<open>
  \<^verbatim>\<open>groupInstancesAndResultsByIndex\<close> (lines 118 to 122): \<^verbatim>\<open>results[index]\<close> is
  \<^verbatim>\<open>undefined\<close> past the end of the results.
\<close>

fun groupInstancesAndResultsByIndex ::
  "BatchResultInfo list \<Rightarrow> ref list \<Rightarrow> InstanceAndResult list" where
  "groupInstancesAndResultsByIndex results [] = []"
| "groupInstancesAndResultsByIndex [] (i # insts) =
     (i, None) # groupInstancesAndResultsByIndex [] insts"
| "groupInstancesAndResultsByIndex (r # rs) (i # insts) =
     (i, Some r) # groupInstancesAndResultsByIndex rs insts"

text \<open>
  \<^verbatim>\<open>.filter(({ result }) => p(result))\<close> where \<open>p\<close> reads a property of the result: on an
  undefined result the read throws.
\<close>

fun filterResults ::
  "(BatchResultInfo \<Rightarrow> bool) \<Rightarrow> InstanceAndResult list \<Rightarrow> error + (ref \<times> BatchResultInfo) list" where
  "filterResults p [] = Inr []"
| "filterResults p ((i, None) # irs) = Inl TypeError"
| "filterResults p ((i, Some r) # irs) =
     (case filterResults p irs of
        Inl e \<Rightarrow> Inl e
      | Inr xs \<Rightarrow> Inr (if p r then (i, r) # xs else xs))"

text \<open>Lines 106 to 109. The template literal spans two lines of the source.\<close>

definition getErrorMessagesFromInstAndResults ::
  "(ref \<Rightarrow> InstanceElement) \<Rightarrow> (ref \<times> BatchResultInfo) list \<Rightarrow> string list" where
  "getErrorMessagesFromInstAndResults h irs =
     map (\<lambda>(i, r). elemName (h i) @ '':'' @ [CHR 0x0A] @ ''    '' @ [CHR 0x09]
            @ (case result_errors r of
                 None \<Rightarrow> ''undefined''
               | Some es \<Rightarrow> join [CHR 0x0A, CHR 0x09] es)) irs"

text \<open>Lines 111 to 116; what \<^verbatim>\<open>logErroredInstances\<close> writes to the log is not modelled.\<close>

definition failedResult :: "BatchResultInfo \<Rightarrow> bool" where
  "failedResult r = (\<not> result_success r \<and> result_errors r \<noteq> None)"

definition getAndLogErrors ::
  "(ref \<Rightarrow> InstanceElement) \<Rightarrow> InstanceAndResult list \<Rightarrow> error + string list" where
  "getAndLogErrors h irs =
     (case filterResults failedResult irs of
        Inl e \<Rightarrow> Inl e
      | Inr errored \<Rightarrow> Inr (getErrorMessagesFromInstAndResults h errored))"

definition getActionResult ::
  "(ref \<Rightarrow> InstanceElement) \<Rightarrow> InstanceAndResult list \<Rightarrow> error + ActionResult" where
  "getActionResult h irs =
     (case filterResults result_success irs of
        Inl e \<Rightarrow> Inl e
      | Inr succ \<Rightarrow>
          (case getAndLogErrors h irs of
             Inl e \<Rightarrow> Inl e
           | Inr msgs \<Rightarrow> Inr \<lparr>successInstances = map fst succ, errorMessages = msgs\<rparr>))"

subsection \<open>The bulk executor\<close>

definition setInstanceValue :: "ref \<Rightarrow> string \<Rightarrow> val \<Rightarrow> state \<Rightarrow> state" where
  "setInstanceValue i k v s =
     s\<lparr>heap := (heap s)(i := (heap s i)\<lparr>instValue := setProp k v (instValue (heap s i))\<rparr>)\<rparr>"

definition idValue :: "string option \<Rightarrow> val" where
  "idValue x = (case x of None \<Rightarrow> Undefined | Some i \<Rightarrow> Str i)"

text \<open>Lines 227 to 229: the \<^verbatim>\<open>forEach\<close> that writes the new identifiers.\<close>

definition writeIds :: "(ref \<times> BatchResultInfo) list \<Rightarrow> state \<Rightarrow> state" where
  "writeIds xs s =
     foldl (\<lambda>st (i, r). setInstanceValue i CUSTOM_OBJECT_ID_FIELD (idValue (result_id r)) st) s xs"

text \<open>Lines 209 to 235.\<close>

definition insertInstances ::
  "env \<Rightarrow> client \<Rightarrow> string \<Rightarrow> ref list \<Rightarrow> state \<Rightarrow> (error + ActionResult) \<times> state" where
  "insertInstances ev cl typeName instances s =
     (if length instances = 0 then (Inr \<lparr>successInstances = [], errorMessages = []\<rparr>, s)
      else
        (case callBulkLoadOperation cl typeName Insert instances
                (instancesToCreateRecords ev (map (heap s) instances)) s of
           (Inl e, s1) \<Rightarrow> (Inl e, s1)
         | (Inr results, s1) \<Rightarrow>
             (let instancesAndResults = groupInstancesAndResultsByIndex results instances
              in case filterResults result_success instancesAndResults of
                   Inl e \<Rightarrow> (Inl e, s1)
                 | Inr successInstAndRes \<Rightarrow>
                     (let s2 = writeIds successInstAndRes s1
                      in case getAndLogErrors (heap s2) instancesAndResults of
                           Inl e \<Rightarrow> (Inl e, s2)
                         | Inr msgs \<Rightarrow>
                             (Inr \<lparr>successInstances = map fst successInstAndRes,
                                   errorMessages = msgs\<rparr>, s2)))))"

text \<open>Lines 237 to 251.\<close>

definition updateInstances ::
  "env \<Rightarrow> client \<Rightarrow> string \<Rightarrow> ref list \<Rightarrow> state \<Rightarrow> (error + ActionResult) \<times> state" where
  "updateInstances ev cl typeName instances s =
     (if length instances = 0 then (Inr \<lparr>successInstances = [], errorMessages = []\<rparr>, s)
      else
        (case callBulkLoadOperation cl typeName Update instances
                (instancesToUpdateRecords ev (map (heap s) instances)) s of
           (Inl e, s1) \<Rightarrow> (Inl e, s1)
         | (Inr results, s1) \<Rightarrow>
             (getActionResult (heap s1) (groupInstancesAndResultsByIndex results instances), s1)))"

text \<open>Lines 253 to 264: no test for an empty list here.\<close>

definition deleteInstances ::
  "env \<Rightarrow> client \<Rightarrow> string \<Rightarrow> ref list \<Rightarrow> state \<Rightarrow> (error + ActionResult) \<times> state" where
  "deleteInstances ev cl typeName instances s =
     (case callBulkLoadOperation cl typeName Delete instances
             (instancesToDeleteRecords ev (map (heap s) instances)) s of
        (Inl e, s1) \<Rightarrow> (Inl e, s1)
      | (Inr results, s1) \<Rightarrow>
          (getActionResult (heap s1) (groupInstancesAndResultsByIndex results instances), s1))"

subsection \<open>Matching instances to fetched records\<close>

text \<open>\<^verbatim>\<open>computeSaltoIdHash\<close> (lines 282 to 288), with the object it serializes on its own.\<close>

definition idFieldsValues :: "string list \<Rightarrow> Values \<Rightarrow> Values" where
  "idFieldsValues idFieldsNames vals =
     fromEntries (map (\<lambda>fieldName. (fieldName, getProp vals fieldName)) idFieldsNames)"

definition computeSaltoIdHash :: "env \<Rightarrow> string list \<Rightarrow> Values \<Rightarrow> string" where
  "computeSaltoIdHash ev idFieldsNames vals =
     toMD5 ev (safeJsonStringify ev (idFieldsValues idFieldsNames vals))"

text \<open>\<^verbatim>\<open>computeRecordSaltoIdHash\<close> (lines 289 to 294).\<close>

definition computeRecordSaltoIdHash ::
  "env \<Rightarrow> string list \<Rightarrow> ObjectType \<Rightarrow> SalesforceRecord \<Rightarrow> string" where
  "computeRecordSaltoIdHash ev idFieldsNames type record =
     (let recordValues = transformRecordToValues ev type record;
          recordValuesWithoutNulls = cloneWithoutNulls recordValues
      in computeSaltoIdHash ev idFieldsNames recordValuesWithoutNulls)"

text \<open>
  \<^verbatim>\<open>_.keyBy\<close>: the value of a key is the last element that generates it. The keys are
  digests, so none of them names a property that every object inherits.
\<close>

definition keyBy :: "'a list \<Rightarrow> ('a \<Rightarrow> string) \<Rightarrow> (string \<rightharpoonup> 'a)" where
  "keyBy xs f = foldl (\<lambda>m x. m(f x \<mapsto> x)) Map.empty xs"

text \<open>The lookup of lines 295 to 298, from the fetched records.\<close>

definition existingRecordsLookup ::
  "env \<Rightarrow> string list \<Rightarrow> ObjectType \<Rightarrow> SalesforceRecord list \<Rightarrow> (string \<rightharpoonup> SalesforceRecord)" where
  "existingRecordsLookup ev idFieldsNames type records =
     keyBy records (computeRecordSaltoIdHash ev idFieldsNames type)"

text \<open>The test of lines 301 and 302: the lookup has a record under the hash of the instance.\<close>

definition matchesExisting ::
  "env \<Rightarrow> string list \<Rightarrow> ObjectType \<Rightarrow> SalesforceRecord list \<Rightarrow> (ref \<Rightarrow> InstanceElement)
     \<Rightarrow> ref \<Rightarrow> bool" where
  "matchesExisting ev idFieldsNames type records h instance =
     (existingRecordsLookup ev idFieldsNames type records
        (computeSaltoIdHash ev idFieldsNames (instValue (h instance))) \<noteq> None)"

text \<open>
  An instance after the assignment of lines 313 to 315: with the \<^verbatim>\<open>Id\<close> of the record that
  the lookup has under its hash.
\<close>

definition withRemoteId ::
  "env \<Rightarrow> string list \<Rightarrow> ObjectType \<Rightarrow> SalesforceRecord list \<Rightarrow> InstanceElement
     \<Rightarrow> InstanceElement" where
  "withRemoteId ev idFieldsNames type records inst =
     (case existingRecordsLookup ev idFieldsNames type records
             (computeSaltoIdHash ev idFieldsNames (instValue inst)) of
        None \<Rightarrow> inst
      | Some record \<Rightarrow>
          inst\<lparr>instValue := setProp CUSTOM_OBJECT_ID_FIELD (getProp record CUSTOM_OBJECT_ID_FIELD)
                               (instValue inst)\<rparr>)"

text \<open>Lines 194 to 198: the queries run one after the other, their records concatenated.\<close>

fun runQueries ::
  "client \<Rightarrow> string list \<Rightarrow> state \<Rightarrow> (error + SalesforceRecord list) \<times> state" where
  "runQueries cl [] s = (Inr [], s)"
| "runQueries cl (q # qs) s =
     (case callQueryAll cl q s of
        (Inl e, s1) \<Rightarrow> (Inl e, s1)
      | (Inr records, s1) \<Rightarrow>
          (case runQueries cl qs s1 of
             (Inl e, s2) \<Rightarrow> (Inl e, s2)
           | (Inr rest, s2) \<Rightarrow> (Inr (records @ rest), s2)))"

definition getRecordsBySaltoIds ::
  "env \<Rightarrow> client \<Rightarrow> ObjectType \<Rightarrow> ref list \<Rightarrow> Field list \<Rightarrow> state
     \<Rightarrow> (error + SalesforceRecord list) \<times> state" where
  "getRecordsBySaltoIds ev cl type instances saltoIdFields s =
     (case buildQueries ev type (map (heap s) instances) saltoIdFields of
        Inl e \<Rightarrow> (Inl e, s)
      | Inr queries \<Rightarrow> runQueries cl queries s)"

text \<open>
  Lines 312 to 316: the \<^verbatim>\<open>forEach\<close> over the matched instances. Reading \<^verbatim>\<open>Id\<close> of a lookup
  that is \<^verbatim>\<open>undefined\<close> throws and leaves the earlier writes in place.
\<close>

fun assignExistingIds ::
  "env \<Rightarrow> string list \<Rightarrow> (string \<rightharpoonup> SalesforceRecord) \<Rightarrow> ref list \<Rightarrow> state
     \<Rightarrow> (error + unit) \<times> state" where
  "assignExistingIds ev idFieldsNames lookup [] s = (Inr (), s)"
| "assignExistingIds ev idFieldsNames lookup (i # insts) s =
     (case lookup (computeSaltoIdHash ev idFieldsNames (instValue (heap s i))) of
        None \<Rightarrow> (Inl TypeError, s)
      | Some record \<Rightarrow>
          assignExistingIds ev idFieldsNames lookup insts
            (setInstanceValue i CUSTOM_OBJECT_ID_FIELD (getProp record CUSTOM_OBJECT_ID_FIELD) s))"

subsection \<open>Deploying a group of changes\<close>

text \<open>Lines 274 to 330. \<^verbatim>\<open>instances[0].getType()\<close> throws on an empty list.\<close>

definition deployAddInstances ::
  "env \<Rightarrow> client \<Rightarrow> ref list \<Rightarrow> Field list \<Rightarrow> state \<Rightarrow> (error + DeployResult) \<times> state" where
  "deployAddInstances ev cl instances idFields s =
     (case instances of
        [] \<Rightarrow> (Inl TypeError, s)
      | i0 # _ \<Rightarrow>
          (let type = instType (heap s i0);
               typeName = typeApiName type;
               idFieldsNames = idFields
           in case getRecordsBySaltoIds ev cl type instances idFields s of
                (Inl e, s1) \<Rightarrow> (Inl e, s1)
              | (Inr records, s1) \<Rightarrow>
                  (let lookup = existingRecordsLookup ev idFieldsNames type records;
                       (existingInstances, newInstances) =
                         partition (matchesExisting ev idFieldsNames type records (heap s1))
                           instances
                   in case insertInstances ev cl typeName newInstances s1 of
                        (Inl e, s2) \<Rightarrow> (Inl e, s2)
                      | (Inr inserted, s2) \<Rightarrow>
                          (case assignExistingIds ev idFieldsNames lookup
                                  existingInstances s2 of
                             (Inl e, s3) \<Rightarrow> (Inl e, s3)
                           | (Inr _, s3) \<Rightarrow>
                               (case updateInstances ev cl typeName existingInstances s3 of
                                  (Inl e, s4) \<Rightarrow> (Inl e, s4)
                                | (Inr updated, s4) \<Rightarrow>
                                    (let allSuccessInstances =
                                           successInstances inserted @ successInstances updated
                                     in (Inr \<lparr>appliedChanges = map Addition allSuccessInstances,
                                              errors = map Error
                                                (errorMessages inserted @ errorMessages updated)\<rparr>,
                                         s4)))))))"

text \<open>Lines 332 to 345.\<close>

definition deployRemoveInstances ::
  "env \<Rightarrow> client \<Rightarrow> ref list \<Rightarrow> state \<Rightarrow> (error + DeployResult) \<times> state" where
  "deployRemoveInstances ev cl instances s =
     (case instances of
        [] \<Rightarrow> (Inl TypeError, s)
      | i0 # _ \<Rightarrow>
          (case deleteInstances ev cl (typeApiName (instType (heap s i0))) instances s of
             (Inl e, s1) \<Rightarrow> (Inl e, s1)
           | (Inr deleted, s1) \<Rightarrow>
               (Inr \<lparr>appliedChanges = map Removal (successInstances deleted),
                     errors = map Error (errorMessages deleted)\<rparr>, s1)))"

text \<open>
  Lines 347 to 371. A change is its \<^verbatim>\<open>data\<close>, the pair of \<^verbatim>\<open>before\<close> and \<^verbatim>\<open>after\<close>.
  \<^verbatim>\<open>isEqual\<close> compares two instances member by member. An undefined api name prints as
  \<^verbatim>\<open>undefined\<close> in the message.
\<close>

definition apiNameText :: "string option \<Rightarrow> string" where
  "apiNameText n = (case n of None \<Rightarrow> ''undefined'' | Some x \<Rightarrow> x)"

definition diffApiNameError :: "env \<Rightarrow> (ref \<Rightarrow> InstanceElement) \<Rightarrow> ref \<times> ref \<Rightarrow> error" where
  "diffApiNameError ev h d =
     Error (''Failed to update as api name prev='' @ apiNameText (instanceApiName ev (h (fst d)))
            @ '' and new='' @ apiNameText (instanceApiName ev (h (snd d))) @ '' are different'')"

text \<open>The test of line 356: \<^verbatim>\<open>apiName(changeData.before) === apiName(changeData.after)\<close>.\<close>

definition sameApiName :: "env \<Rightarrow> (ref \<Rightarrow> InstanceElement) \<Rightarrow> ref \<times> ref \<Rightarrow> bool" where
  "sameApiName ev h changeData =
     (instanceApiName ev (h (fst changeData)) = instanceApiName ev (h (snd changeData)))"

definition deployModifyChanges ::
  "env \<Rightarrow> client \<Rightarrow> (ref \<times> ref) list \<Rightarrow> state \<Rightarrow> (error + DeployResult) \<times> state" where
  "deployModifyChanges ev cl changesData s =
     (case changesData of
        [] \<Rightarrow> (Inl TypeError, s)
      | d0 # _ \<Rightarrow>
          (let instancesType = typeApiName (instType (heap s (snd d0)));
               (validData, diffApiNameData) =
                 partition (sameApiName ev (heap s)) changesData;
               afters = map snd validData
           in case updateInstances ev cl instancesType afters s of
                (Inl e, s1) \<Rightarrow> (Inl e, s1)
              | (Inr updated, s1) \<Rightarrow>
                  (let successData =
                         filter (\<lambda>changeData.
                             list_ex (\<lambda>instance. heap s1 instance = heap s1 (snd changeData))
                               (successInstances updated)) validData;
                       diffApiNameErrors = map (diffApiNameError ev (heap s1)) diffApiNameData
                   in (Inr \<lparr>appliedChanges = map (\<lambda>d. Modification (fst d) (snd d)) successData,
                            errors = map Error (errorMessages updated) @ diffApiNameErrors\<rparr>,
                       s1))))"

text \<open>Lines 373 to 426: the guards, the three paths and the \<^verbatim>\<open>catch\<close> around all of it.\<close>

fun getChangeElement :: "Change \<Rightarrow> ref" where
  "getChangeElement (Addition a) = a"
| "getChangeElement (Removal b) = b"
| "getChangeElement (Modification b a) = a"

fun isAdditionChange :: "Change \<Rightarrow> bool" where
  "isAdditionChange (Addition a) = True"
| "isAdditionChange c = False"

fun isRemovalChange :: "Change \<Rightarrow> bool" where
  "isRemovalChange (Removal b) = True"
| "isRemovalChange c = False"

fun isModificationChange :: "Change \<Rightarrow> bool" where
  "isModificationChange (Modification b a) = True"
| "isModificationChange c = False"

definition isModificationChangeList :: "Change list \<Rightarrow> bool" where
  "isModificationChangeList changes = list_all isModificationChange changes"

text \<open>The \<^verbatim>\<open>data\<close> of the changes of a list of modifications.\<close>

fun modificationData :: "Change list \<Rightarrow> (ref \<times> ref) list" where
  "modificationData [] = []"
| "modificationData (Modification b a # cs) = (b, a) # modificationData cs"
| "modificationData (c # cs) = modificationData cs"

text \<open>\<^verbatim>\<open>[...new Set(xs)]\<close>: the distinct elements in the order of their first occurrence.\<close>

definition uniq :: "'a list \<Rightarrow> 'a list" where
  "uniq xs = rev (remdups (rev xs))"

definition getDataManagementFromCustomSettings ::
  "(ref \<Rightarrow> InstanceElement) \<Rightarrow> ref \<Rightarrow> DataManagement" where
  "getDataManagementFromCustomSettings h i0 =
     \<lparr>includeObjects = [''^'' @ typeApiName (instType (h i0))], defaultIdFields = [''Name'']\<rparr>"

definition deployGroupBody ::
  "env \<Rightarrow> client \<Rightarrow> Change list \<Rightarrow> DataManagement option \<Rightarrow> state
     \<Rightarrow> (error + DeployResult) \<times> state" where
  "deployGroupBody ev cl changes dataManagement s =
     (let instances = map getChangeElement changes;
          instanceTypes = uniq (map (\<lambda>inst. typeApiName (instType (heap s inst))) instances)
      in if length instanceTypes > 1
         then (Inl (Error (''Custom Object Instances change group should have a single type but got: ''
                            @ join '','' instanceTypes)), s)
         else
           (case instances of
              [] \<Rightarrow> (Inl TypeError, s)
            | i0 # _ \<Rightarrow>
                (let actualDataManagement =
                       (if listCustomSettings (instType (heap s i0))
                        then Some (getDataManagementFromCustomSettings (heap s) i0)
                        else dataManagement)
                 in case actualDataManagement of
                      None \<Rightarrow>
                        (Inl (Error (''dataManagement must be defined in the salesforce.nacl config ''
                                     @ ''to deploy Custom Object instances'')), s)
                    | Some dm \<Rightarrow>
                        if list_all isAdditionChange changes then
                          (case getIdFields ev (instType (heap s i0)) dm of
                             (idFields, invalidFields) \<Rightarrow>
                               (case invalidFields of
                                  Some (f # fs) \<Rightarrow>
                                    (Inl (Error (''Failed to add instances of type ''
                                                 @ hd instanceTypes
                                                 @ '' due to invalid SaltoIdFields - ''
                                                 @ join '','' (f # fs))), s)
                                | _ \<Rightarrow> deployAddInstances ev cl instances idFields s))
                        else if list_all isRemovalChange changes then
                          deployRemoveInstances ev cl instances s
                        else if isModificationChangeList changes then
                          deployModifyChanges ev cl (modificationData changes) s
                        else
                          (Inl (Error ''Custom Object Instances change group must have one action''), s))))"

definition deployCustomObjectInstancesGroup ::
  "env \<Rightarrow> client \<Rightarrow> Change list \<Rightarrow> DataManagement option \<Rightarrow> state \<Rightarrow> DeployResult \<times> state" where
  "deployCustomObjectInstancesGroup ev cl changes dataManagement s =
     (case deployGroupBody ev cl changes dataManagement s of
        (Inl e, s') \<Rightarrow> (\<lparr>appliedChanges = [], errors = [e]\<rparr>, s')
      | (Inr r, s') \<Rightarrow> (r, s'))"

subsection \<open>The fatal conditions\<close>

text \<open>
  The conditions under which lines 398 to 419 throw, as the code tests them: more than one
  type name among the changed instances; no data management for a type that is not a list
  custom setting; invalid identity fields for a group of additions; a group that is neither
  all additions, nor all removals, nor all modifications.
\<close>

definition multipleTypes :: "(ref \<Rightarrow> InstanceElement) \<Rightarrow> Change list \<Rightarrow> bool" where
  "multipleTypes h changes =
     (length (uniq (map (\<lambda>inst. typeApiName (instType (h inst))) (map getChangeElement changes))) > 1)"

definition actualDataManagement ::
  "(ref \<Rightarrow> InstanceElement) \<Rightarrow> Change list \<Rightarrow> DataManagement option \<Rightarrow> DataManagement option" where
  "actualDataManagement h changes dataManagement =
     (case changes of
        [] \<Rightarrow> None
      | c # _ \<Rightarrow>
          if listCustomSettings (instType (h (getChangeElement c)))
          then Some (getDataManagementFromCustomSettings h (getChangeElement c))
          else dataManagement)"

definition missingDataManagement ::
  "(ref \<Rightarrow> InstanceElement) \<Rightarrow> Change list \<Rightarrow> DataManagement option \<Rightarrow> bool" where
  "missingDataManagement h changes dataManagement =
     (changes \<noteq> [] \<and> actualDataManagement h changes dataManagement = None)"

definition invalidSaltoIdFields ::
  "env \<Rightarrow> (ref \<Rightarrow> InstanceElement) \<Rightarrow> Change list \<Rightarrow> DataManagement option \<Rightarrow> bool" where
  "invalidSaltoIdFields ev h changes dataManagement =
     (list_all isAdditionChange changes \<and>
      (case (changes, actualDataManagement h changes dataManagement) of
         (c # _, Some dm) \<Rightarrow>
           (case snd (getIdFields ev (instType (h (getChangeElement c))) dm) of
              Some (f # fs) \<Rightarrow> True
            | _ \<Rightarrow> False)
       | _ \<Rightarrow> False))"

definition mixedActions :: "Change list \<Rightarrow> bool" where
  "mixedActions changes =
     (\<not> list_all isAdditionChange changes \<and> \<not> list_all isRemovalChange changes
      \<and> \<not> isModificationChangeList changes)"

subsection \<open>Reading a trace\<close>

text \<open>A call that the client rejected, and a call that is a query.\<close>

fun isRejected :: "call \<times> response \<Rightarrow> bool" where
  "isRejected (c, Rejection e) = True"
| "isRejected (c, r) = False"

fun isQuery :: "call \<times> response \<Rightarrow> bool" where
  "isQuery (QueryAll q, r) = True"
| "isQuery (c, r) = False"

text \<open>
  The number of per-record failures that the bulk calls of a trace reported for the
  instances they were made for.
\<close>

fun perRecordFailures :: "trace \<Rightarrow> nat" where
  "perRecordFailures [] = 0"
| "perRecordFailures ((BulkLoad typeName oper refs records, BulkResults results) # tr) =
     length (filter failedResult (take (length refs) results)) + perRecordFailures tr"
| "perRecordFailures (e # tr) = perRecordFailures tr"

text \<open>The trace entry of a bulk call made after the trace \<open>tr\<close>.\<close>

definition bulkEntry ::
  "client \<Rightarrow> trace \<Rightarrow> string \<Rightarrow> operation \<Rightarrow> ref list \<Rightarrow> SalesforceRecord list
     \<Rightarrow> call \<times> response" where
  "bulkEntry cl tr typeName oper refs records =
     (BulkLoad typeName oper refs records,
      case bulkLoadOperation cl tr typeName oper records of
        Inl e \<Rightarrow> Rejection e
      | Inr results \<Rightarrow> BulkResults results)"

subsection \<open>An example store\<close>

text \<open>
  A small configuration on which the model can be evaluated. The digest is the identity,
  under which no two serializations collide; a record is its own values; the instances
  \<open>0\<close> and \<open>3\<close> have the same name; the instances \<open>4\<close> to \<open>7\<close> are the two sides of two
  modifications, the second of which changes the api name; instance \<open>8\<close> is of another type.
\<close>

definition exampleEnv :: env where
  "exampleEnv =
     \<lparr>toMD5 = (\<lambda>text. text),
      safeJsonStringify = jsonStringify,
      transformRecordToValues = (\<lambda>type record. record),
      instancesToCreateRecords = map instValue,
      instancesToUpdateRecords = map instValue,
      instancesToDeleteRecords = map (\<lambda>inst. [(''Id'', getProp (instValue inst) ''Id'')]),
      instanceApiName = (\<lambda>inst. case getProp (instValue inst) ''fullName'' of
                                   Str n \<Rightarrow> Some n | _ \<Rightarrow> None),
      buildQueries = (\<lambda>type insts fields. Inr [''SELECT Id,Name FROM '' @ typeApiName type]),
      getIdFields = (\<lambda>type dm. (defaultIdFields dm, None))\<rparr>"

definition exampleType :: ObjectType where
  "exampleType = \<lparr>typeApiName = ''Acc'', listCustomSettings = False\<rparr>"

definition otherType :: ObjectType where
  "otherType = \<lparr>typeApiName = ''Lead'', listCustomSettings = False\<rparr>"

definition exampleInstance :: "string \<Rightarrow> Values \<Rightarrow> InstanceElement" where
  "exampleInstance n vals = \<lparr>elemName = n, instType = exampleType, instValue = vals\<rparr>"

definition exampleHeap :: "ref \<Rightarrow> InstanceElement" where
  "exampleHeap =
     (\<lambda>i. exampleInstance ''x'' [])
       (0 := exampleInstance ''a'' [(''Name'', Str ''A'')],
        1 := exampleInstance ''b'' [(''Name'', Str ''B'')],
        2 := exampleInstance ''c'' [(''Name'', Str ''C'')],
        3 := exampleInstance ''d'' [(''Name'', Str ''A'')],
        4 := exampleInstance ''p'' [(''fullName'', Str ''P''), (''Name'', Str ''old'')],
        5 := exampleInstance ''p'' [(''fullName'', Str ''P''), (''Name'', Str ''new'')],
        6 := exampleInstance ''q'' [(''fullName'', Str ''Q'')],
        7 := exampleInstance ''q'' [(''fullName'', Str ''R'')],
        8 := \<lparr>elemName = ''l'', instType = otherType, instValue = []\<rparr>)"

definition exampleState :: state where
  "exampleState = \<lparr>heap = exampleHeap, log = []\<rparr>"

definition exampleDataManagement :: DataManagement where
  "exampleDataManagement = \<lparr>includeObjects = [''^Acc''], defaultIdFields = [''Name'']\<rparr>"

definition succeeded :: "string option \<Rightarrow> BatchResultInfo" where
  "succeeded i = \<lparr>result_id = i, result_success = True, result_errors = None\<rparr>"

definition failed :: "string list \<Rightarrow> BatchResultInfo" where
  "failed es = \<lparr>result_id = None, result_success = False, result_errors = Some es\<rparr>"

text \<open>
  A store that answers every query with the records it holds and every bulk call with one
  result per record: a failure for the records with one of the given names, a success for
  the others, with a new identifier when they are inserted.
\<close>

definition remoteStore :: "SalesforceRecord list \<Rightarrow> string list \<Rightarrow> client" where
  "remoteStore held failing =
     \<lparr>queryAll = (\<lambda>tr query. Inr held),
      bulkLoadOperation = (\<lambda>tr typeName oper records.
         Inr (map (\<lambda>record.
                if getProp record ''Name'' \<in> set (map Str failing)
                then failed [''DUPLICATE_VALUE'']
                else succeeded (if oper = Insert then Some ''002'' else None)) records))\<rparr>"

definition acme :: SalesforceRecord where
  "acme = [(''Id'', Str ''001''), (''Name'', Str ''A'')]"

text \<open>A store that rejects every call.\<close>

definition unreachableStore :: client where
  "unreachableStore =
     \<lparr>queryAll = (\<lambda>tr query. Inl (Rejected ''ECONNRESET'')),
      bulkLoadOperation = (\<lambda>tr typeName oper records. Inl (Rejected ''ECONNRESET''))\<rparr>"

section \<open>Properties\<close>

subsection \<open>Object properties and per-record results\<close>

lemma getProp_setProp_same: "getProp (setProp k v vals) k = v"
  by (induction vals) (auto simp: getProp_def)


lemma group_enough:
  "length insts \<le> length results \<Longrightarrow>
   groupInstancesAndResultsByIndex results insts = map (\<lambda>(i, r). (i, Some r)) (zip insts results)"
  by (induction results insts rule: groupInstancesAndResultsByIndex.induct) auto

lemma filterResults_some:
  "filterResults p (map (\<lambda>(i, r). (i, Some r)) xs) = Inr (filter (\<lambda>(i, r). p r) xs)"
  by (induction xs) auto

lemma filterResults_short:
  "length results < length insts \<Longrightarrow>
   filterResults p (groupInstancesAndResultsByIndex results insts) = Inl TypeError"
  by (induction results insts rule: groupInstancesAndResultsByIndex.induct)
     (auto split: sum.splits)

lemma filterResults_group:
  "filterResults p (groupInstancesAndResultsByIndex results insts) =
     (if length insts \<le> length results
      then Inr (filter (\<lambda>(i, r). p r) (zip insts results))
      else Inl TypeError)"
  by (simp add: group_enough filterResults_some filterResults_short)


lemma getAndLogErrors_group:
  "getAndLogErrors h (groupInstancesAndResultsByIndex results insts) =
     (if length insts \<le> length results
      then Inr (getErrorMessagesFromInstAndResults h
                  (filter (\<lambda>(i, r). failedResult r) (zip insts results)))
      else Inl TypeError)"
  by (simp add: getAndLogErrors_def filterResults_group failedResult_def case_prod_unfold)

lemma getActionResult_group:
  "getActionResult h (groupInstancesAndResultsByIndex results insts) =
     (if length insts \<le> length results
      then Inr \<lparr>successInstances = map fst (filter (\<lambda>(i, r). result_success r) (zip insts results)),
                errorMessages = getErrorMessagesFromInstAndResults h
                  (filter (\<lambda>(i, r). failedResult r) (zip insts results))\<rparr>
      else Inl TypeError)"
  by (simp add: getActionResult_def filterResults_group getAndLogErrors_group)

lemma log_setInstanceValue [simp]: "log (setInstanceValue i k v s) = log s"
  by (simp add: setInstanceValue_def)

lemma heap_setInstanceValue:
  "heap (setInstanceValue i k v s) j =
     (if j = i then (heap s i)\<lparr>instValue := setProp k v (instValue (heap s i))\<rparr> else heap s j)"
  by (simp add: setInstanceValue_def)

lemma log_writeIds [simp]: "log (writeIds xs s) = log s"
  unfolding writeIds_def by (induction xs arbitrary: s) auto

lemma heap_writeIds_other: "i \<notin> fst ` set xs \<Longrightarrow> heap (writeIds xs s) i = heap s i"
  unfolding writeIds_def
  by (induction xs arbitrary: s) (auto simp: heap_setInstanceValue)

lemma heap_writeIds_member:
  "distinct (map fst xs) \<Longrightarrow> (i, r) \<in> set xs \<Longrightarrow>
   heap (writeIds xs s) i =
     (heap s i)\<lparr>instValue := setProp CUSTOM_OBJECT_ID_FIELD (idValue (result_id r)) (instValue (heap s i))\<rparr>"
proof (induction xs arbitrary: s)
  case Nil
  then show ?case by simp
next
  case (Cons x xs)
  obtain j q where x: "x = (j, q)" by (cases x)
  have step: "writeIds ((j, q) # xs) s =
      writeIds xs (setInstanceValue j CUSTOM_OBJECT_ID_FIELD (idValue (result_id q)) s)"
    by (simp add: writeIds_def)
  show ?case
  proof (cases "(i, r) = x")
    case True
    then have "i \<notin> fst ` set xs" using Cons.prems(1) x by force
    then show ?thesis using True x
      by (simp add: step heap_writeIds_other heap_setInstanceValue)
  next
    case False
    then have mem: "(i, r) \<in> set xs" using Cons.prems(2) by simp
    then have "i \<noteq> j" using Cons.prems(1) x by force
    then show ?thesis using Cons.IH [OF _ mem] Cons.prems(1)
      by (simp add: x step heap_setInstanceValue)
  qed
qed

lemma elemName_writeIds [simp]: "elemName (heap (writeIds xs s) i) = elemName (heap s i)"
  unfolding writeIds_def
  by (induction xs arbitrary: s) (auto simp: heap_setInstanceValue)

lemma instType_writeIds [simp]: "instType (heap (writeIds xs s) i) = instType (heap s i)"
  unfolding writeIds_def
  by (induction xs arbitrary: s) (auto simp: heap_setInstanceValue)

lemma insertInstances_eq:
  "insertInstances ev cl typeName insts s =
     (if insts = [] then (Inr \<lparr>successInstances = [], errorMessages = []\<rparr>, s)
      else
        (let records = instancesToCreateRecords ev (map (heap s) insts);
             c = BulkLoad typeName Insert insts records
         in case bulkLoadOperation cl (log s) typeName Insert records of
              Inl e \<Rightarrow> (Inl e, logged s c (Rejection e))
            | Inr results \<Rightarrow>
                if length insts \<le> length results then
                  (let succ = filter (\<lambda>(i, r). result_success r) (zip insts results);
                       s2 = writeIds succ (logged s c (BulkResults results))
                   in (Inr \<lparr>successInstances = map fst succ,
                            errorMessages = getErrorMessagesFromInstAndResults (heap s2)
                              (filter (\<lambda>(i, r). failedResult r) (zip insts results))\<rparr>, s2))
                else (Inl TypeError, logged s c (BulkResults results))))"
  by (auto simp: insertInstances_def callBulkLoadOperation_def Let_def logged_def writeIds_def
        filterResults_group getAndLogErrors_group split: sum.splits)

lemma updateInstances_eq:
  "updateInstances ev cl typeName insts s =
     (if insts = [] then (Inr \<lparr>successInstances = [], errorMessages = []\<rparr>, s)
      else
        (let records = instancesToUpdateRecords ev (map (heap s) insts);
             c = BulkLoad typeName Update insts records
         in case bulkLoadOperation cl (log s) typeName Update records of
              Inl e \<Rightarrow> (Inl e, logged s c (Rejection e))
            | Inr results \<Rightarrow>
                if length insts \<le> length results then
                  (Inr \<lparr>successInstances =
                          map fst (filter (\<lambda>(i, r). result_success r) (zip insts results)),
                        errorMessages = getErrorMessagesFromInstAndResults (heap s)
                          (filter (\<lambda>(i, r). failedResult r) (zip insts results))\<rparr>,
                   logged s c (BulkResults results))
                else (Inl TypeError, logged s c (BulkResults results))))"
  by (auto simp: updateInstances_def callBulkLoadOperation_def Let_def logged_def
        getActionResult_group split: sum.splits)

lemma deleteInstances_eq:
  "deleteInstances ev cl typeName insts s =
        (let records = instancesToDeleteRecords ev (map (heap s) insts);
             c = BulkLoad typeName Delete insts records
         in case bulkLoadOperation cl (log s) typeName Delete records of
              Inl e \<Rightarrow> (Inl e, logged s c (Rejection e))
            | Inr results \<Rightarrow>
                if length insts \<le> length results then
                  (Inr \<lparr>successInstances =
                          map fst (filter (\<lambda>(i, r). result_success r) (zip insts results)),
                        errorMessages = getErrorMessagesFromInstAndResults (heap s)
                          (filter (\<lambda>(i, r). failedResult r) (zip insts results))\<rparr>,
                   logged s c (BulkResults results))
                else (Inl TypeError, logged s c (BulkResults results)))"
  by (auto simp: deleteInstances_def callBulkLoadOperation_def Let_def logged_def
        getActionResult_group split: sum.splits)


lemma newCalls_append: "log s' = log s @ tr \<Longrightarrow> newCalls s s' = tr"
  by (simp add: newCalls_def)

lemma newCalls_same [simp]: "newCalls s s = []"
  by (simp add: newCalls_def)

lemma log_logged [simp]: "log (logged s c r) = log s @ [(c, r)]"
  by (simp add: logged_def)

lemma heap_logged [simp]: "heap (logged s c r) = heap s"
  by (simp add: logged_def)

lemma heap_writeIds_logged [simp]: "heap (writeIds xs (logged s c r)) = heap (writeIds xs s)"
  unfolding writeIds_def
proof (induction xs arbitrary: s)
  case Nil
  then show ?case by simp
next
  case (Cons x xs)
  have "setInstanceValue i k v (logged s c r) = logged (setInstanceValue i k v s) c r" for i k v
    by (simp add: setInstanceValue_def logged_def)
  then show ?case using Cons.IH by (simp add: case_prod_unfold)
qed

lemma fetchedRecords_append [simp]:
  "fetchedRecords (tr1 @ tr2) = fetchedRecords tr1 @ fetchedRecords tr2"
  by (induction tr1 rule: fetchedRecords.induct) auto

lemma keyBy_snoc: "keyBy (xs @ [x]) f = (keyBy xs f)(f x \<mapsto> x)"
  by (simp add: keyBy_def)

lemma keyBy_Some_last:
  "keyBy xs f k = Some m \<longleftrightarrow> (filter (\<lambda>x. f x = k) xs \<noteq> [] \<and> m = last (filter (\<lambda>x. f x = k) xs))"
proof (induction xs rule: rev_induct)
  case Nil
  then show ?case by (simp add: keyBy_def)
next
  case (snoc x xs)
  then show ?case by (auto simp: keyBy_snoc)
qed

lemma keyBy_None: "keyBy xs f k = None \<longleftrightarrow> k \<notin> f ` set xs"
proof (induction xs rule: rev_induct)
  case Nil
  then show ?case by (simp add: keyBy_def)
next
  case (snoc x xs)
  then show ?case by (auto simp: keyBy_snoc)
qed

lemma keyBy_Some_member: "keyBy xs f k = Some m \<Longrightarrow> m \<in> set xs \<and> f m = k"
proof -
  assume "keyBy xs f k = Some m"
  then have ne: "filter (\<lambda>x. f x = k) xs \<noteq> []" and m: "m = last (filter (\<lambda>x. f x = k) xs)"
    by (simp_all add: keyBy_Some_last)
  from ne have "last (filter (\<lambda>x. f x = k) xs) \<in> set (filter (\<lambda>x. f x = k) xs)"
    by (rule last_in_set)
  with m show ?thesis by simp
qed

lemma runQueries_heap: "runQueries cl qs s = (res, s') \<Longrightarrow> heap s' = heap s"
  by (induction qs arbitrary: s res s')
     (auto simp: callQueryAll_def Let_def split: sum.splits prod.splits)

lemma runQueries_trace:
  "runQueries cl qs s = (res, s') \<Longrightarrow>
   \<exists>tr. log s' = log s @ tr \<and> list_all isQuery tr \<and>
        (case res of
           Inr records \<Rightarrow> fetchedRecords tr = records \<and> \<not> list_ex isRejected tr
         | Inl e \<Rightarrow> list_ex isRejected tr)"
proof (induction qs arbitrary: s res s')
  case Nil
  then show ?case by auto
next
  case (Cons q qs)
  show ?case
  proof (cases "queryAll cl (log s) q")
    case (Inl e)
    with Cons.prems have "res = Inl e" "s' = logged s (QueryAll q) (Rejection e)"
      by (auto simp: callQueryAll_def Let_def)
    then show ?thesis
      by (intro exI [of _ "[(QueryAll q, Rejection e)]"]) simp
  next
    case (Inr records)
    obtain res2 s2 where r2: "runQueries cl qs (logged s (QueryAll q) (QueryRecords records)) = (res2, s2)"
      by force
    from Cons.IH [OF r2] obtain tr where
      tr: "log s2 = log s @ (QueryAll q, QueryRecords records) # tr" "list_all isQuery tr"
        "(case res2 of Inr rs \<Rightarrow> fetchedRecords tr = rs \<and> \<not> list_ex isRejected tr
          | Inl e \<Rightarrow> list_ex isRejected tr)"
      by auto
    from Cons.prems Inr r2 have "s' = s2" "res = (case res2 of Inl e \<Rightarrow> Inl e | Inr rest \<Rightarrow> Inr (records @ rest))"
      by (auto simp: callQueryAll_def Let_def split: sum.splits)
    with tr show ?thesis
      by (intro exI [of _ "(QueryAll q, QueryRecords records) # tr"]) (auto split: sum.splits)
  qed
qed

lemma getRecordsBySaltoIds_heap:
  "getRecordsBySaltoIds ev cl type insts fs s = (res, s') \<Longrightarrow> heap s' = heap s"
  by (auto simp: getRecordsBySaltoIds_def split: sum.splits dest: runQueries_heap)

lemma getRecordsBySaltoIds_trace:
  "getRecordsBySaltoIds ev cl type insts fs s = (Inr records, s') \<Longrightarrow>
   \<exists>tr. log s' = log s @ tr \<and> list_all isQuery tr \<and> fetchedRecords tr = records
        \<and> \<not> list_ex isRejected tr"
  by (auto simp: getRecordsBySaltoIds_def split: sum.splits dest!: runQueries_trace)

lemma assignExistingIds_log:
  "assignExistingIds ev fs lookup insts s = (res, s') \<Longrightarrow> log s' = log s"
  by (induction insts arbitrary: s) (auto split: option.splits)

lemma assignExistingIds_other:
  "assignExistingIds ev fs lookup insts s = (res, s') \<Longrightarrow> i \<notin> set insts \<Longrightarrow> heap s' i = heap s i"
  by (induction insts arbitrary: s) (auto split: option.splits simp: heap_setInstanceValue)

lemma assignExistingIds_member:
  "assignExistingIds ev fs lookup insts s = (Inr u, s') \<Longrightarrow> distinct insts \<Longrightarrow> i \<in> set insts \<Longrightarrow>
   \<exists>m. lookup (computeSaltoIdHash ev fs (instValue (heap s i))) = Some m \<and>
       heap s' i = (heap s i)\<lparr>instValue :=
          setProp CUSTOM_OBJECT_ID_FIELD (getProp m CUSTOM_OBJECT_ID_FIELD) (instValue (heap s i))\<rparr>"
proof (induction insts arbitrary: s)
  case Nil
  then show ?case by simp
next
  case (Cons j insts)
  from Cons.prems(1) obtain m where
    m: "lookup (computeSaltoIdHash ev fs (instValue (heap s j))) = Some m"
    and rest: "assignExistingIds ev fs lookup insts
        (setInstanceValue j CUSTOM_OBJECT_ID_FIELD (getProp m CUSTOM_OBJECT_ID_FIELD) s) = (Inr u, s')"
    by (auto split: option.splits)
  show ?case
  proof (cases "i = j")
    case True
    then have "i \<notin> set insts" using Cons.prems(2) by simp
    from assignExistingIds_other [OF rest this] m True show ?thesis
      by (simp add: heap_setInstanceValue)
  next
    case False
    then have "i \<in> set insts" using Cons.prems(3) by simp
    from Cons.IH [OF rest _ this] Cons.prems(2) False show ?thesis
      by (simp add: heap_setInstanceValue)
  qed
qed

subsection \<open>The empty batch\<close>

lemma insertInstances_empty:
  "insertInstances ev cl typeName [] s = (Inr \<lparr>successInstances = [], errorMessages = []\<rparr>, s)"
  by (simp add: insertInstances_def)

lemma updateInstances_empty:
  "updateInstances ev cl typeName [] s = (Inr \<lparr>successInstances = [], errorMessages = []\<rparr>, s)"
  by (simp add: updateInstances_def)

lemma insertInstances_one_call:
  "insts \<noteq> [] \<Longrightarrow>
   \<exists>resp. log (snd (insertInstances ev cl typeName insts s)) =
     log s @ [(BulkLoad typeName Insert insts (instancesToCreateRecords ev (map (heap s) insts)), resp)]"
  by (auto simp: insertInstances_eq Let_def split: sum.splits)

lemma updateInstances_one_call:
  "insts \<noteq> [] \<Longrightarrow>
   \<exists>resp. log (snd (updateInstances ev cl typeName insts s)) =
     log s @ [(BulkLoad typeName Update insts (instancesToUpdateRecords ev (map (heap s) insts)), resp)]"
  by (auto simp: updateInstances_eq Let_def split: sum.splits)

lemma deleteInstances_one_call:
  "\<exists>resp. log (snd (deleteInstances ev cl typeName insts s)) =
     log s @ [(BulkLoad typeName Delete insts (instancesToDeleteRecords ev (map (heap s) insts)), resp)]"
  by (auto simp: deleteInstances_eq Let_def split: sum.splits)


subsection \<open>The stages of an addition\<close>

lemma deployAddInstances_unfold:
  assumes "instances \<noteq> []"
  shows "deployAddInstances ev cl instances idFields s =
    (case getRecordsBySaltoIds ev cl (instType (heap s (hd instances))) instances idFields s of
       (Inl e, s1) \<Rightarrow> (Inl e, s1)
     | (Inr records, s1) \<Rightarrow>
        (case insertInstances ev cl (typeApiName (instType (heap s (hd instances))))
                (filter (Not \<circ> matchesExisting ev idFields (instType (heap s (hd instances))) records (heap s))
                   instances) s1 of
           (Inl e, s2) \<Rightarrow> (Inl e, s2)
         | (Inr inserted, s2) \<Rightarrow>
            (case assignExistingIds ev idFields
                    (existingRecordsLookup ev idFields (instType (heap s (hd instances))) records)
                    (filter (matchesExisting ev idFields (instType (heap s (hd instances))) records (heap s))
                       instances) s2 of
               (Inl e, s3) \<Rightarrow> (Inl e, s3)
             | (Inr u, s3) \<Rightarrow>
                (case updateInstances ev cl (typeApiName (instType (heap s (hd instances))))
                        (filter (matchesExisting ev idFields (instType (heap s (hd instances))) records (heap s))
                           instances) s3 of
                   (Inl e, s4) \<Rightarrow> (Inl e, s4)
                 | (Inr updated, s4) \<Rightarrow>
                    (Inr \<lparr>appliedChanges =
                            map Addition (successInstances inserted @ successInstances updated),
                          errors = map Error (errorMessages inserted @ errorMessages updated)\<rparr>,
                     s4)))))"
proof -
  obtain res1 s1 where
    g: "getRecordsBySaltoIds ev cl (instType (heap s (hd instances))) instances idFields s = (res1, s1)"
    by force
  have h1: "heap s1 = heap s" using g by (rule getRecordsBySaltoIds_heap)
  obtain i0 rest where inst: "instances = i0 # rest" using assms by (cases instances) auto
  have "deployAddInstances ev cl instances idFields s =
    (case getRecordsBySaltoIds ev cl (instType (heap s (hd instances))) instances idFields s of
       (Inl e, s1) \<Rightarrow> (Inl e, s1)
     | (Inr records, s1) \<Rightarrow>
        (case insertInstances ev cl (typeApiName (instType (heap s (hd instances))))
                (filter (Not \<circ> matchesExisting ev idFields (instType (heap s (hd instances))) records (heap s1))
                   instances) s1 of
           (Inl e, s2) \<Rightarrow> (Inl e, s2)
         | (Inr inserted, s2) \<Rightarrow>
            (case assignExistingIds ev idFields
                    (existingRecordsLookup ev idFields (instType (heap s (hd instances))) records)
                    (filter (matchesExisting ev idFields (instType (heap s (hd instances))) records (heap s1))
                       instances) s2 of
               (Inl e, s3) \<Rightarrow> (Inl e, s3)
             | (Inr u, s3) \<Rightarrow>
                (case updateInstances ev cl (typeApiName (instType (heap s (hd instances))))
                        (filter (matchesExisting ev idFields (instType (heap s (hd instances))) records (heap s1))
                           instances) s3 of
                   (Inl e, s4) \<Rightarrow> (Inl e, s4)
                 | (Inr updated, s4) \<Rightarrow>
                    (Inr \<lparr>appliedChanges =
                            map Addition (successInstances inserted @ successInstances updated),
                          errors = map Error (errorMessages inserted @ errorMessages updated)\<rparr>,
                     s4)))))"
    unfolding deployAddInstances_def inst Let_def list.case list.sel partition_filter_conv prod.case
    by (rule refl)
  then show ?thesis
    by (simp add: g h1 cong: prod.case_cong sum.case_cong)
qed

lemma deployAddInstances_Inr:
  assumes "deployAddInstances ev cl instances idFields s = (Inr r, s')"
  obtains records s1 inserted s2 s3 updated where
    "instances \<noteq> []"
    "getRecordsBySaltoIds ev cl (instType (heap s (hd instances))) instances idFields s = (Inr records, s1)"
    "insertInstances ev cl (typeApiName (instType (heap s (hd instances))))
       (filter (Not \<circ> matchesExisting ev idFields (instType (heap s (hd instances))) records (heap s)) instances) s1
     = (Inr inserted, s2)"
    "assignExistingIds ev idFields (existingRecordsLookup ev idFields (instType (heap s (hd instances))) records)
       (filter (matchesExisting ev idFields (instType (heap s (hd instances))) records (heap s)) instances) s2
     = (Inr (), s3)"
    "updateInstances ev cl (typeApiName (instType (heap s (hd instances))))
       (filter (matchesExisting ev idFields (instType (heap s (hd instances))) records (heap s)) instances) s3
     = (Inr updated, s')"
    "r = \<lparr>appliedChanges = map Addition (successInstances inserted @ successInstances updated),
          errors = map Error (errorMessages inserted @ errorMessages updated)\<rparr>"
proof -
  from assms have ne: "instances \<noteq> []"
    by (cases instances) (auto simp: deployAddInstances_def)
  from assms that ne show thesis
    unfolding deployAddInstances_unfold [OF ne]
    by (auto split: prod.splits sum.splits)
qed


lemma getErrorMessages_cong:
  "(\<And>i. elemName (h i) = elemName (h' i)) \<Longrightarrow>
   getErrorMessagesFromInstAndResults h xs = getErrorMessagesFromInstAndResults h' xs"
  by (simp add: getErrorMessagesFromInstAndResults_def)

lemma insertInstances_Inr:
  assumes "insertInstances ev cl typeName insts s = (Inr a, s')"
  obtains results where
    "length insts \<le> length results"
    "log s' = log s @ (if insts = [] then []
       else [(BulkLoad typeName Insert insts (instancesToCreateRecords ev (map (heap s) insts)),
              BulkResults results)])"
    "heap s' = heap (writeIds (filter (\<lambda>(i, r). result_success r) (zip insts results)) s)"
    "successInstances a = map fst (filter (\<lambda>(i, r). result_success r) (zip insts results))"
    "errorMessages a = getErrorMessagesFromInstAndResults (heap s)
       (filter (\<lambda>(i, r). failedResult r) (zip insts results))"
proof (cases "insts = []")
  case True
  with assms have "s' = s" "a = \<lparr>successInstances = [], errorMessages = []\<rparr>"
    by (simp_all add: insertInstances_eq)
  with True that [of "[]"] show thesis
    by (simp add: writeIds_def getErrorMessagesFromInstAndResults_def)
next
  case False
  let ?records = "instancesToCreateRecords ev (map (heap s) insts)"
  from assms False obtain results where
    res: "bulkLoadOperation cl (log s) typeName Insert ?records = Inr results"
    by (cases "bulkLoadOperation cl (log s) typeName Insert ?records")
       (auto simp: insertInstances_eq Let_def)
  from assms False res have len: "length insts \<le> length results"
    by (auto simp: insertInstances_eq Let_def split: if_splits)
  let ?succ = "filter (\<lambda>(i, r). result_success r) (zip insts results)"
  let ?s2 = "writeIds ?succ (logged s (BulkLoad typeName Insert insts ?records) (BulkResults results))"
  have msgs: "getErrorMessagesFromInstAndResults (heap ?s2) xs
      = getErrorMessagesFromInstAndResults (heap s) xs" for xs
    by (rule getErrorMessages_cong) simp
  have eq: "insertInstances ev cl typeName insts s =
      (Inr \<lparr>successInstances = map fst ?succ,
            errorMessages = getErrorMessagesFromInstAndResults (heap s)
              (filter (\<lambda>(i, r). failedResult r) (zip insts results))\<rparr>, ?s2)"
    using False res len msgs by (simp add: insertInstances_eq Let_def)
  from assms [unfolded eq] have s': "s' = ?s2"
    and a: "a = \<lparr>successInstances = map fst ?succ,
                 errorMessages = getErrorMessagesFromInstAndResults (heap s)
                   (filter (\<lambda>(i, r). failedResult r) (zip insts results))\<rparr>"
    by auto
  have 1: "log s' = log s @ [(BulkLoad typeName Insert insts ?records, BulkResults results)]"
    by (simp add: s')
  have 2: "heap s' = heap (writeIds ?succ s)"
    by (simp add: s')
  have 3: "successInstances a = map fst ?succ"
    by (simp add: a)
  have 4: "errorMessages a = getErrorMessagesFromInstAndResults (heap s)
       (filter (\<lambda>(i, r). failedResult r) (zip insts results))"
    by (simp add: a)
  show thesis
    using that [of results] len False 1 2 3 4 by simp
qed

lemma updateInstances_Inr:
  assumes "updateInstances ev cl typeName insts s = (Inr a, s')"
  obtains results where
    "length insts \<le> length results"
    "log s' = log s @ (if insts = [] then []
       else [(BulkLoad typeName Update insts (instancesToUpdateRecords ev (map (heap s) insts)),
              BulkResults results)])"
    "heap s' = heap s"
    "successInstances a = map fst (filter (\<lambda>(i, r). result_success r) (zip insts results))"
    "errorMessages a = getErrorMessagesFromInstAndResults (heap s)
       (filter (\<lambda>(i, r). failedResult r) (zip insts results))"
proof (cases "insts = []")
  case True
  with assms have "s' = s" "a = \<lparr>successInstances = [], errorMessages = []\<rparr>"
    by (simp_all add: updateInstances_eq)
  with True that [of "[]"] show thesis
    by (simp add: getErrorMessagesFromInstAndResults_def)
next
  case False
  let ?records = "instancesToUpdateRecords ev (map (heap s) insts)"
  from assms False obtain results where
    res: "bulkLoadOperation cl (log s) typeName Update ?records = Inr results"
    by (cases "bulkLoadOperation cl (log s) typeName Update ?records")
       (auto simp: updateInstances_eq Let_def)
  from assms False res have len: "length insts \<le> length results"
    by (auto simp: updateInstances_eq Let_def split: if_splits)
  from assms False res len that [of results] show thesis
    by (auto simp: updateInstances_eq Let_def)
qed


lemma writeIds_Cons:
  "writeIds (x # xs) s =
     writeIds xs (setInstanceValue (fst x) CUSTOM_OBJECT_ID_FIELD (idValue (result_id (snd x))) s)"
  by (simp add: writeIds_def case_prod_unfold)

lemma heap_writeIds_cong: "heap s1 = heap s \<Longrightarrow> heap (writeIds xs s1) = heap (writeIds xs s)"
proof (induction xs arbitrary: s s1)
  case Nil
  then show ?case by (simp add: writeIds_def)
next
  case (Cons x xs)
  have "heap (setInstanceValue i k v s1) = heap (setInstanceValue i k v s)" for i k v
    using Cons.prems by (simp add: setInstanceValue_def)
  then have "heap (writeIds xs (setInstanceValue (fst x) CUSTOM_OBJECT_ID_FIELD (idValue (result_id (snd x))) s1))
      = heap (writeIds xs (setInstanceValue (fst x) CUSTOM_OBJECT_ID_FIELD (idValue (result_id (snd x))) s))"
    by (rule Cons.IH)
  then show ?case by (simp only: writeIds_Cons)
qed

lemma assignExistingIds_elemName:
  "assignExistingIds ev fs lookup insts s = (res, s') \<Longrightarrow> elemName (heap s' i) = elemName (heap s i)"
  by (induction insts arbitrary: s) (auto split: option.splits simp: heap_setInstanceValue)

lemma deployAddInstances_shape:
  assumes run: "deployAddInstances ev cl instances idFields s = (Inr r, s')"
  obtains qtr records existing new insResults updResults where
    "instances \<noteq> []"
    "list_all isQuery qtr" "\<not> list_ex isRejected qtr" "records = fetchedRecords qtr"
    "existing = filter (matchesExisting ev idFields (instType (heap s (hd instances))) records (heap s)) instances"
    "new = filter (Not \<circ> matchesExisting ev idFields (instType (heap s (hd instances))) records (heap s)) instances"
    "length new \<le> length insResults" "length existing \<le> length updResults"
    "newCalls s s' = qtr
       @ (if new = [] then []
          else [(BulkLoad (typeApiName (instType (heap s (hd instances)))) Insert new
                   (instancesToCreateRecords ev (map (heap s) new)), BulkResults insResults)])
       @ (if existing = [] then []
          else [(BulkLoad (typeApiName (instType (heap s (hd instances)))) Update existing
                   (instancesToUpdateRecords ev (map (heap s') existing)), BulkResults updResults)])"
    "\<And>i. i \<notin> set existing \<Longrightarrow>
       heap s' i = heap (writeIds (filter (\<lambda>(i, r). result_success r) (zip new insResults)) s) i"
    "\<And>i. distinct instances \<Longrightarrow> i \<in> set existing \<Longrightarrow>
       \<exists>m. existingRecordsLookup ev idFields (instType (heap s (hd instances))) records
             (computeSaltoIdHash ev idFields (instValue (heap s i))) = Some m
         \<and> heap s' i = (heap s i)\<lparr>instValue :=
              setProp CUSTOM_OBJECT_ID_FIELD (getProp m CUSTOM_OBJECT_ID_FIELD) (instValue (heap s i))\<rparr>"
    "appliedChanges r = map Addition
       (map fst (filter (\<lambda>(i, r). result_success r) (zip new insResults))
        @ map fst (filter (\<lambda>(i, r). result_success r) (zip existing updResults)))"
    "errors r = map Error
       (getErrorMessagesFromInstAndResults (heap s) (filter (\<lambda>(i, r). failedResult r) (zip new insResults))
        @ getErrorMessagesFromInstAndResults (heap s)
            (filter (\<lambda>(i, r). failedResult r) (zip existing updResults)))"
proof -
  let ?type = "instType (heap s (hd instances))"
  from run obtain records s1 inserted s2 s3 updated where
    ne: "instances \<noteq> []"
    and g: "getRecordsBySaltoIds ev cl ?type instances idFields s = (Inr records, s1)"
    and ins: "insertInstances ev cl (typeApiName ?type)
       (filter (Not \<circ> matchesExisting ev idFields ?type records (heap s)) instances) s1
     = (Inr inserted, s2)"
    and asg: "assignExistingIds ev idFields (existingRecordsLookup ev idFields ?type records)
       (filter (matchesExisting ev idFields ?type records (heap s)) instances) s2
     = (Inr (), s3)"
    and upd: "updateInstances ev cl (typeApiName ?type)
       (filter (matchesExisting ev idFields ?type records (heap s)) instances) s3
     = (Inr updated, s')"
    and r: "r = \<lparr>appliedChanges = map Addition (successInstances inserted @ successInstances updated),
          errors = map Error (errorMessages inserted @ errorMessages updated)\<rparr>"
    by (rule deployAddInstances_Inr)
  let ?existing = "filter (matchesExisting ev idFields ?type records (heap s)) instances"
  let ?new = "filter (Not \<circ> matchesExisting ev idFields ?type records (heap s)) instances"
  have h1: "heap s1 = heap s" using g by (rule getRecordsBySaltoIds_heap)
  from getRecordsBySaltoIds_trace [OF g] obtain qtr where
    q: "log s1 = log s @ qtr" "list_all isQuery qtr" "fetchedRecords qtr = records"
       "\<not> list_ex isRejected qtr"
    by auto
  from ins obtain insResults where
    i: "length ?new \<le> length insResults"
       "log s2 = log s1 @ (if ?new = [] then []
          else [(BulkLoad (typeApiName ?type) Insert ?new
                  (instancesToCreateRecords ev (map (heap s1) ?new)), BulkResults insResults)])"
       "heap s2 = heap (writeIds (filter (\<lambda>(i, r). result_success r) (zip ?new insResults)) s1)"
       "successInstances inserted = map fst (filter (\<lambda>(i, r). result_success r) (zip ?new insResults))"
       "errorMessages inserted = getErrorMessagesFromInstAndResults (heap s1)
          (filter (\<lambda>(i, r). failedResult r) (zip ?new insResults))"
    by (rule insertInstances_Inr)
  from upd obtain updResults where
    u: "length ?existing \<le> length updResults"
       "log s' = log s3 @ (if ?existing = [] then []
          else [(BulkLoad (typeApiName ?type) Update ?existing
                  (instancesToUpdateRecords ev (map (heap s3) ?existing)), BulkResults updResults)])"
       "heap s' = heap s3"
       "successInstances updated = map fst (filter (\<lambda>(i, r). result_success r) (zip ?existing updResults))"
       "errorMessages updated = getErrorMessagesFromInstAndResults (heap s3)
          (filter (\<lambda>(i, r). failedResult r) (zip ?existing updResults))"
    by (rule updateInstances_Inr)
  have l3: "log s3 = log s2" using asg by (rule assignExistingIds_log)
  let ?succ = "filter (\<lambda>(i, r). result_success r) (zip ?new insResults)"
  have heap2: "heap s2 = heap (writeIds ?succ s)"
    using i(3) heap_writeIds_cong [OF h1] by simp
  have names: "elemName (heap s3 j) = elemName (heap s j)" for j
    using assignExistingIds_elemName [OF asg, of j] by (simp add: heap2)
  have disjoint: "j \<in> set ?existing \<Longrightarrow> j \<notin> fst ` set ?succ" for j
    by (auto dest!: set_zip_leftD)
  show thesis
  proof (rule that [of qtr records ?existing ?new insResults updResults])
    show "instances \<noteq> []" by (rule ne)
    show "list_all isQuery qtr" by (rule q(2))
    show "\<not> list_ex isRejected qtr" by (rule q(4))
    show "records = fetchedRecords qtr" by (simp add: q(3))
    show "?existing = ?existing" by (rule refl)
    show "?new = ?new" by (rule refl)
    show "length ?new \<le> length insResults" by (rule i(1))
    show "length ?existing \<le> length updResults" by (rule u(1))
    show "newCalls s s' = qtr
       @ (if ?new = [] then []
          else [(BulkLoad (typeApiName ?type) Insert ?new
                   (instancesToCreateRecords ev (map (heap s) ?new)), BulkResults insResults)])
       @ (if ?existing = [] then []
          else [(BulkLoad (typeApiName ?type) Update ?existing
                   (instancesToUpdateRecords ev (map (heap s') ?existing)), BulkResults updResults)])"
      by (rule newCalls_append) (simp add: u(2) u(3) l3 i(2) q(1) h1)
    show "heap s' j = heap (writeIds ?succ s) j" if "j \<notin> set ?existing" for j
      using assignExistingIds_other [OF asg that] by (simp add: u(3) heap2)
    show "\<exists>m. existingRecordsLookup ev idFields ?type records
             (computeSaltoIdHash ev idFields (instValue (heap s j))) = Some m
         \<and> heap s' j = (heap s j)\<lparr>instValue :=
              setProp CUSTOM_OBJECT_ID_FIELD (getProp m CUSTOM_OBJECT_ID_FIELD) (instValue (heap s j))\<rparr>"
      if d: "distinct instances" and j: "j \<in> set ?existing" for j
    proof -
      have "heap s2 j = heap s j"
        using disjoint [OF j] by (simp add: heap2 heap_writeIds_other)
      moreover have "distinct ?existing" using d by simp
      ultimately show ?thesis
        using assignExistingIds_member [OF asg _ j] by (simp add: u(3))
    qed
    show "appliedChanges r = map Addition
       (map fst ?succ @ map fst (filter (\<lambda>(i, r). result_success r) (zip ?existing updResults)))"
      by (simp add: r i(4) u(4))
    have "getErrorMessagesFromInstAndResults (heap s3) xs = getErrorMessagesFromInstAndResults (heap s) xs" for xs
      by (rule getErrorMessages_cong) (rule names)
    then show "errors r = map Error
       (getErrorMessagesFromInstAndResults (heap s) (filter (\<lambda>(i, r). failedResult r) (zip ?new insResults))
        @ getErrorMessagesFromInstAndResults (heap s)
            (filter (\<lambda>(i, r). failedResult r) (zip ?existing updResults)))"
      by (simp add: r i(5) u(5) h1)
  qed
qed

subsection \<open>What each stage adds to the trace, whatever its outcome\<close>

lemma insertInstances_log:
  "insertInstances ev cl typeName insts s = (res, s') \<Longrightarrow>
   log s' = log s @ (if insts = [] then []
      else [bulkEntry cl (log s) typeName Insert insts
              (instancesToCreateRecords ev (map (heap s) insts))])"
  by (auto simp: insertInstances_eq Let_def bulkEntry_def split: sum.splits if_splits)

lemma updateInstances_log:
  "updateInstances ev cl typeName insts s = (res, s') \<Longrightarrow>
   log s' = log s @ (if insts = [] then []
      else [bulkEntry cl (log s) typeName Update insts
              (instancesToUpdateRecords ev (map (heap s) insts))])"
  by (auto simp: updateInstances_eq Let_def bulkEntry_def split: sum.splits if_splits)

lemma deleteInstances_log:
  "deleteInstances ev cl typeName insts s = (res, s') \<Longrightarrow>
   log s' = log s @ [bulkEntry cl (log s) typeName Delete insts
              (instancesToDeleteRecords ev (map (heap s) insts))]"
  by (auto simp: deleteInstances_eq Let_def bulkEntry_def split: sum.splits if_splits)

lemma updateInstances_heap:
  "updateInstances ev cl typeName insts s = (res, s') \<Longrightarrow> heap s' = heap s"
  by (auto simp: updateInstances_eq Let_def split: sum.splits if_splits)

lemma deleteInstances_heap:
  "deleteInstances ev cl typeName insts s = (res, s') \<Longrightarrow> heap s' = heap s"
  by (auto simp: deleteInstances_eq Let_def split: sum.splits if_splits)

lemma getRecordsBySaltoIds_queries:
  "getRecordsBySaltoIds ev cl type insts fs s = (res, s') \<Longrightarrow>
   \<exists>tr. log s' = log s @ tr \<and> list_all isQuery tr \<and>
        (case res of Inr records \<Rightarrow> fetchedRecords tr = records \<and> \<not> list_ex isRejected tr
         | Inl e \<Rightarrow> True)"
proof (cases "buildQueries ev type (map (heap s) insts) fs")
  case (Inl e)
  assume "getRecordsBySaltoIds ev cl type insts fs s = (res, s')"
  with Inl have "s' = s" "res = Inl e" by (simp_all add: getRecordsBySaltoIds_def)
  then show ?thesis by simp
next
  case (Inr queries)
  assume "getRecordsBySaltoIds ev cl type insts fs s = (res, s')"
  with Inr have "runQueries cl queries s = (res, s')" by (simp add: getRecordsBySaltoIds_def)
  from runQueries_trace [OF this] show ?thesis by (auto split: sum.splits)
qed


lemma fetchedRecords_bulkEntry [simp]:
  "fetchedRecords (bulkEntry cl tr t oper refs records # rest) = fetchedRecords rest"
  by (simp add: bulkEntry_def)

lemma isQuery_not_bulk:
  "list_all isQuery tr \<Longrightarrow> (BulkLoad t oper refs records, resp) \<notin> set tr"
  by (induction tr) auto

lemma deployAddInstances_calls:
  assumes run: "deployAddInstances ev cl instances idFields s = (res, s')"
    and call: "(BulkLoad t oper refs recs, resp) \<in> set (newCalls s s')"
  obtains records s1 where
    "instances \<noteq> []"
    "getRecordsBySaltoIds ev cl (instType (heap s (hd instances))) instances idFields s = (Inr records, s1)"
    "fetchedRecords (newCalls s s') = records"
    "t = typeApiName (instType (heap s (hd instances)))"
    "oper = Insert
       \<and> refs = filter (Not \<circ> matchesExisting ev idFields (instType (heap s (hd instances))) records (heap s)) instances
       \<and> (BulkLoad t oper refs recs, resp)
           = bulkEntry cl (log s1) t Insert refs (instancesToCreateRecords ev (map (heap s) refs))
     \<or> oper = Update
       \<and> refs = filter (matchesExisting ev idFields (instType (heap s (hd instances))) records (heap s)) instances"
proof -
  let ?type = "instType (heap s (hd instances))"
  let ?tn = "typeApiName ?type"
  have ne: "instances \<noteq> []"
  proof
    assume "instances = []"
    with run have "s' = s" by (simp add: deployAddInstances_def)
    with call show False by simp
  qed
  note unfold = deployAddInstances_unfold [OF ne, of ev cl idFields s]
  obtain res1 s1 where g: "getRecordsBySaltoIds ev cl ?type instances idFields s = (res1, s1)"
    by force
  from getRecordsBySaltoIds_queries [OF g] obtain qtr where
    q: "log s1 = log s @ qtr" "list_all isQuery qtr"
    and fetched: "\<And>records. res1 = Inr records \<Longrightarrow> fetchedRecords qtr = records"
    by (cases res1) auto
  have h1: "heap s1 = heap s" using g by (rule getRecordsBySaltoIds_heap)
  show thesis
  proof (cases res1)
    case (Inl e)
    with run g have "s' = s1" by (simp add: unfold)
    then have "newCalls s s' = qtr" using q(1) by (simp add: newCalls_def)
    with call isQuery_not_bulk [OF q(2)] show thesis by simp
  next
    case (Inr records)
    let ?P = "matchesExisting ev idFields ?type records (heap s)"
    let ?new = "filter (Not \<circ> ?P) instances"
    let ?existing = "filter ?P instances"
    let ?itr = "if ?new = [] then []
      else [bulkEntry cl (log s1) ?tn Insert ?new (instancesToCreateRecords ev (map (heap s) ?new))]"
    obtain res2 s2 where ins: "insertInstances ev cl ?tn ?new s1 = (res2, s2)"
      by force
    have l2: "log s2 = log s1 @ ?itr"
      using insertInstances_log [OF ins] by (simp add: h1)
    have "\<exists>utr. log s' = log s2 @ utr \<and>
        (utr = [] \<or> (\<exists>tr3 recs3. utr = [bulkEntry cl tr3 ?tn Update ?existing recs3]))"
    proof (cases res2)
      case (Inl e)
      with run g Inr ins have "s' = s2" by (simp add: unfold)
      then show ?thesis by simp
    next
      case inserted: (Inr inserted)
      obtain res3 s3 where asg: "assignExistingIds ev idFields
          (existingRecordsLookup ev idFields ?type records) ?existing s2 = (res3, s3)"
        by force
      have l3: "log s3 = log s2" using asg by (rule assignExistingIds_log)
      show ?thesis
      proof (cases res3)
        case (Inl e)
        with run g Inr ins inserted asg have "s' = s3" by (simp add: unfold)
        then show ?thesis by (simp add: l3)
      next
        case assigned: (Inr u)
        obtain res4 s4 where upd: "updateInstances ev cl ?tn ?existing s3 = (res4, s4)"
          by force
        from run g Inr ins inserted asg assigned upd have "s' = s4"
          by (cases res4) (simp_all add: unfold)
        with updateInstances_log [OF upd] l3 show ?thesis
          by (cases "?existing = []") auto
      qed
    qed
    then obtain utr where
      utr: "log s' = log s2 @ utr"
        "utr = [] \<or> (\<exists>tr3 recs3. utr = [bulkEntry cl tr3 ?tn Update ?existing recs3])"
      by blast
    have calls: "newCalls s s' = qtr @ ?itr @ utr"
      by (rule newCalls_append) (simp add: utr(1) l2 q(1))
    have f: "fetchedRecords (newCalls s s') = records"
      using utr(2) fetched [OF Inr] by (auto simp: calls)
    from call have "(BulkLoad t oper refs recs, resp) \<in> set ?itr \<or> (BulkLoad t oper refs recs, resp) \<in> set utr"
      using isQuery_not_bulk [OF q(2)] by (simp add: calls)
    then show thesis
    proof
      assume "(BulkLoad t oper refs recs, resp) \<in> set ?itr"
      then have "(BulkLoad t oper refs recs, resp)
          = bulkEntry cl (log s1) ?tn Insert ?new (instancesToCreateRecords ev (map (heap s) ?new))"
        by (simp split: if_splits)
      moreover from this have "t = ?tn" "oper = Insert" "refs = ?new"
        by (simp_all add: bulkEntry_def)
      ultimately show thesis
        using that [of records s1] ne g Inr f by simp
    next
      assume "(BulkLoad t oper refs recs, resp) \<in> set utr"
      with utr(2) have "t = ?tn" "oper = Update" "refs = ?existing"
        by (auto simp: bulkEntry_def)
      then show thesis
        using that [of records s1] ne g Inr f by simp
    qed
  qed
qed

subsection \<open>Additions: matched and new instances\<close>

lemma fetchedRecords_add_run:
  "fetchedRecords (qtr
      @ (if new = [] then [] else [(BulkLoad t Insert new recs1, resp1)])
      @ (if existing = [] then [] else [(BulkLoad t Update existing recs2, resp2)]))
   = fetchedRecords qtr"
  by simp

text \<open>
  C1. In a group of additions that was deployed without a fatal error, let an instance
  (of a list of distinct instances) have the identity hash of a fetched record. Then the
  bulk update call was made for it, no bulk insert call was, and afterwards its \<^verbatim>\<open>Id\<close> is
  the \<^verbatim>\<open>Id\<close> of the matched record: the last fetched record with that hash.
\<close>

theorem add_matched_instance_is_updated:
  assumes run: "deployAddInstances ev cl instances idFields s = (Inr r, s')"
    and dist: "distinct instances"
    and i: "i \<in> set instances"
    and rec: "record \<in> set (fetchedRecords (newCalls s s'))"
    and hash: "computeRecordSaltoIdHash ev idFields (instType (heap s (hd instances))) record
               = computeSaltoIdHash ev idFields (instValue (heap s i))"
  shows "(\<exists>refs records results.
            (BulkLoad (typeApiName (instType (heap s (hd instances)))) Update refs records,
             BulkResults results) \<in> set (newCalls s s') \<and> i \<in> set refs)
       \<and> (\<forall>typeName refs records resp.
            (BulkLoad typeName Insert refs records, resp) \<in> set (newCalls s s') \<longrightarrow> i \<notin> set refs)
       \<and> getProp (instValue (heap s' i)) CUSTOM_OBJECT_ID_FIELD
           = getProp (last (filter
               (\<lambda>m. computeRecordSaltoIdHash ev idFields (instType (heap s (hd instances))) m
                    = computeSaltoIdHash ev idFields (instValue (heap s i)))
               (fetchedRecords (newCalls s s')))) CUSTOM_OBJECT_ID_FIELD"
proof -
  let ?type = "instType (heap s (hd instances))"
  let ?hashRec = "computeRecordSaltoIdHash ev idFields ?type"
  let ?h = "computeSaltoIdHash ev idFields (instValue (heap s i))"
  from run obtain qtr records existing new insResults updResults where
    ne: "instances \<noteq> []"
    and q: "list_all isQuery qtr" and qok: "\<not> list_ex isRejected qtr"
    and recs: "records = fetchedRecords qtr"
    and ex: "existing = filter (matchesExisting ev idFields ?type records (heap s)) instances"
    and nw: "new = filter (Not \<circ> matchesExisting ev idFields ?type records (heap s)) instances"
    and len_new: "length new \<le> length insResults"
    and len_ex: "length existing \<le> length updResults"
    and tr: "newCalls s s' = qtr
       @ (if new = [] then []
          else [(BulkLoad (typeApiName ?type) Insert new
                   (instancesToCreateRecords ev (map (heap s) new)), BulkResults insResults)])
       @ (if existing = [] then []
          else [(BulkLoad (typeApiName ?type) Update existing
                   (instancesToUpdateRecords ev (map (heap s') existing)), BulkResults updResults)])"
    and heap_other: "\<And>j. j \<notin> set existing \<Longrightarrow>
       heap s' j = heap (writeIds (filter (\<lambda>(i, r). result_success r) (zip new insResults)) s) j"
    and heap_ex: "\<And>j. distinct instances \<Longrightarrow> j \<in> set existing \<Longrightarrow>
       \<exists>m. existingRecordsLookup ev idFields ?type records
             (computeSaltoIdHash ev idFields (instValue (heap s j))) = Some m
         \<and> heap s' j = (heap s j)\<lparr>instValue :=
              setProp CUSTOM_OBJECT_ID_FIELD (getProp m CUSTOM_OBJECT_ID_FIELD) (instValue (heap s j))\<rparr>"
    and applied: "appliedChanges r = map Addition
       (map fst (filter (\<lambda>(i, r). result_success r) (zip new insResults))
        @ map fst (filter (\<lambda>(i, r). result_success r) (zip existing updResults)))"
    and errs: "errors r = map Error
       (getErrorMessagesFromInstAndResults (heap s) (filter (\<lambda>(i, r). failedResult r) (zip new insResults))
        @ getErrorMessagesFromInstAndResults (heap s)
            (filter (\<lambda>(i, r). failedResult r) (zip existing updResults)))"
    by (rule deployAddInstances_shape) blast
  have fetched: "fetchedRecords (newCalls s s') = records"
    unfolding tr recs by (rule fetchedRecords_add_run)
  from rec hash have "?h \<in> ?hashRec ` set records"
    unfolding fetched by force
  then have "matchesExisting ev idFields ?type records (heap s) i"
    by (simp add: matchesExisting_def existingRecordsLookup_def keyBy_None)
  with i have iex: "i \<in> set existing" and inew: "i \<notin> set new"
    by (simp_all add: ex nw)
  then have "existing \<noteq> []" by auto
  then have "(BulkLoad (typeApiName ?type) Update existing
                (instancesToUpdateRecords ev (map (heap s') existing)), BulkResults updResults)
             \<in> set (newCalls s s')"
    by (simp add: tr)
  with iex have updated: "\<exists>refs records results.
            (BulkLoad (typeApiName ?type) Update refs records, BulkResults results)
              \<in> set (newCalls s s') \<and> i \<in> set refs"
    by blast
  have not_inserted: "\<forall>typeName refs records resp.
            (BulkLoad typeName Insert refs records, resp) \<in> set (newCalls s s') \<longrightarrow> i \<notin> set refs"
    using inew isQuery_not_bulk [OF q] by (auto simp: tr split: if_splits)
  from heap_ex [OF dist iex] obtain m where
    m: "existingRecordsLookup ev idFields ?type records ?h = Some m"
    and hp: "heap s' i = (heap s i)\<lparr>instValue :=
              setProp CUSTOM_OBJECT_ID_FIELD (getProp m CUSTOM_OBJECT_ID_FIELD) (instValue (heap s i))\<rparr>"
    by blast
  from m have "m = last (filter (\<lambda>x. ?hashRec x = ?h) records)"
    by (simp add: existingRecordsLookup_def keyBy_Some_last)
  with hp have "getProp (instValue (heap s' i)) CUSTOM_OBJECT_ID_FIELD
      = getProp (last (filter (\<lambda>x. ?hashRec x = ?h) (fetchedRecords (newCalls s s')))) CUSTOM_OBJECT_ID_FIELD"
    by (simp add: getProp_setProp_same fetched)
  with updated not_inserted show ?thesis by blast
qed

theorem add_matched_instance_is_updated_witness:
  "distinct [0, 1 :: ref]
   \<and> fst (deployAddInstances exampleEnv (remoteStore [acme] []) [0, 1] [''Name''] exampleState)
       = Inr \<lparr>appliedChanges = [Addition 1, Addition 0], errors = []\<rparr>
   \<and> getProp (instValue (heap (snd (deployAddInstances exampleEnv (remoteStore [acme] []) [0, 1]
                                     [''Name''] exampleState)) 0)) CUSTOM_OBJECT_ID_FIELD
       = Str ''001''"
proof -
  let ?run = "deployAddInstances exampleEnv (remoteStore [acme] []) [0, 1] [''Name''] exampleState"
  let ?r = "\<lparr>appliedChanges = [Addition 1, Addition 0], errors = []\<rparr>"
  have res: "fst ?run = Inr ?r" by code_simp
  then have run: "?run = (Inr ?r, snd ?run)" by (metis prod.collapse)
  have rec: "acme \<in> set (fetchedRecords (newCalls exampleState (snd ?run)))" by code_simp
  have hash: "computeRecordSaltoIdHash exampleEnv [''Name''] (instType (heap exampleState (hd [0, 1]))) acme
      = computeSaltoIdHash exampleEnv [''Name''] (instValue (heap exampleState 0))"
    by code_simp
  have "getProp (instValue (heap (snd ?run) 0)) CUSTOM_OBJECT_ID_FIELD
      = getProp (last (filter
               (\<lambda>m. computeRecordSaltoIdHash exampleEnv [''Name''] (instType (heap exampleState (hd [0, 1]))) m
                    = computeSaltoIdHash exampleEnv [''Name''] (instValue (heap exampleState 0)))
               (fetchedRecords (newCalls exampleState (snd ?run))))) CUSTOM_OBJECT_ID_FIELD"
    using add_matched_instance_is_updated [OF run _ _ rec hash] by simp
  also have "\<dots> = Str ''001''" by code_simp
  finally show ?thesis using res by simp
qed

lemma zip_nth_member: "k < length xs \<Longrightarrow> k < length ys \<Longrightarrow> (xs ! k, ys ! k) \<in> set (zip xs ys)"
  by (auto simp: set_zip)

lemma distinct_fst_filter_zip: "distinct xs \<Longrightarrow> distinct (map fst (filter P (zip xs ys)))"
proof -
  assume "distinct xs"
  then have "distinct (take (min (length xs) (length ys)) xs)" by simp
  then have "distinct (map fst (zip xs ys))" by (simp add: map_fst_zip_take)
  then show ?thesis by (rule distinct_map_filter)
qed

text \<open>
  C2, as the code has it. In a group of additions deployed without a fatal error (the
  instances distinct), every applied change is an addition. An instance for which a bulk
  call reported success is reported as an applied addition, whichever call it was: after
  the bulk insert it is an instance without a match and carries the identifier that the
  result assigned, after the bulk update it is a matched instance and carries the
  identifier of the matched record.
\<close>

theorem add_success_is_reported_as_addition:
  assumes run: "deployAddInstances ev cl instances idFields s = (Inr r, s')"
    and dist: "distinct instances"
    and call: "(BulkLoad typeName oper refs records, BulkResults results) \<in> set (newCalls s s')"
    and k: "k < length refs"
    and succ: "result_success (results ! k)"
  shows "Addition (refs ! k) \<in> set (appliedChanges r)
       \<and> list_all isAdditionChange (appliedChanges r)
       \<and> (oper = Insert \<longrightarrow>
            \<not> matchesExisting ev idFields (instType (heap s (hd instances)))
                (fetchedRecords (newCalls s s')) (heap s) (refs ! k)
            \<and> getProp (instValue (heap s' (refs ! k))) CUSTOM_OBJECT_ID_FIELD
                = idValue (result_id (results ! k)))
       \<and> (oper = Update \<longrightarrow>
            matchesExisting ev idFields (instType (heap s (hd instances)))
                (fetchedRecords (newCalls s s')) (heap s) (refs ! k)
            \<and> getProp (instValue (heap s' (refs ! k))) CUSTOM_OBJECT_ID_FIELD
                = getProp (last (filter
                    (\<lambda>m. computeRecordSaltoIdHash ev idFields (instType (heap s (hd instances))) m
                         = computeSaltoIdHash ev idFields (instValue (heap s (refs ! k))))
                    (fetchedRecords (newCalls s s')))) CUSTOM_OBJECT_ID_FIELD)"
proof -
  let ?type = "instType (heap s (hd instances))"
  from run obtain qtr records existing new insResults updResults where
    ne: "instances \<noteq> []"
    and q: "list_all isQuery qtr" and qok: "\<not> list_ex isRejected qtr"
    and recs: "records = fetchedRecords qtr"
    and ex: "existing = filter (matchesExisting ev idFields ?type records (heap s)) instances"
    and nw: "new = filter (Not \<circ> matchesExisting ev idFields ?type records (heap s)) instances"
    and len_new: "length new \<le> length insResults"
    and len_ex: "length existing \<le> length updResults"
    and tr: "newCalls s s' = qtr
       @ (if new = [] then []
          else [(BulkLoad (typeApiName ?type) Insert new
                   (instancesToCreateRecords ev (map (heap s) new)), BulkResults insResults)])
       @ (if existing = [] then []
          else [(BulkLoad (typeApiName ?type) Update existing
                   (instancesToUpdateRecords ev (map (heap s') existing)), BulkResults updResults)])"
    and heap_other: "\<And>j. j \<notin> set existing \<Longrightarrow>
       heap s' j = heap (writeIds (filter (\<lambda>(i, r). result_success r) (zip new insResults)) s) j"
    and heap_ex: "\<And>j. distinct instances \<Longrightarrow> j \<in> set existing \<Longrightarrow>
       \<exists>m. existingRecordsLookup ev idFields ?type records
             (computeSaltoIdHash ev idFields (instValue (heap s j))) = Some m
         \<and> heap s' j = (heap s j)\<lparr>instValue :=
              setProp CUSTOM_OBJECT_ID_FIELD (getProp m CUSTOM_OBJECT_ID_FIELD) (instValue (heap s j))\<rparr>"
    and applied: "appliedChanges r = map Addition
       (map fst (filter (\<lambda>(i, r). result_success r) (zip new insResults))
        @ map fst (filter (\<lambda>(i, r). result_success r) (zip existing updResults)))"
    and errs: "errors r = map Error
       (getErrorMessagesFromInstAndResults (heap s) (filter (\<lambda>(i, r). failedResult r) (zip new insResults))
        @ getErrorMessagesFromInstAndResults (heap s)
            (filter (\<lambda>(i, r). failedResult r) (zip existing updResults)))"
    by (rule deployAddInstances_shape) blast
  have fetched: "fetchedRecords (newCalls s s') = records"
    unfolding tr recs by (rule fetchedRecords_add_run)
  let ?succ = "filter (\<lambda>(i, r). result_success r) (zip new insResults)"
  have adds: "list_all isAdditionChange (appliedChanges r)"
    by (auto simp: applied list_all_iff)
  from call isQuery_not_bulk [OF q] have
    "oper = Insert \<and> refs = new \<and> results = insResults
     \<or> oper = Update \<and> refs = existing \<and> results = updResults"
    by (auto simp: tr split: if_splits)
  then show ?thesis
  proof
    assume "oper = Insert \<and> refs = new \<and> results = insResults"
    then have o: "oper = Insert" and refs: "refs = new" and results: "results = insResults"
      by simp_all
    from k len_new have "(new ! k, insResults ! k) \<in> set (zip new insResults)"
      by (intro zip_nth_member) (simp_all add: refs)
    with succ have mem: "(new ! k, insResults ! k) \<in> set ?succ"
      by (simp add: results)
    then have "new ! k \<in> set (map fst ?succ)" by force
    then have app: "Addition (refs ! k) \<in> set (appliedChanges r)"
      unfolding applied refs by (simp only: set_map set_append) blast
    have "new ! k \<in> set new" using k by (simp add: refs)
    then have unmatched: "\<not> matchesExisting ev idFields ?type records (heap s) (new ! k)"
      by (simp add: nw)
    then have "new ! k \<notin> set existing" by (simp add: ex)
    then have "heap s' (new ! k) = heap (writeIds ?succ s) (new ! k)"
      by (rule heap_other)
    also have "\<dots> = (heap s (new ! k))\<lparr>instValue :=
        setProp CUSTOM_OBJECT_ID_FIELD (idValue (result_id (insResults ! k))) (instValue (heap s (new ! k)))\<rparr>"
    proof (rule heap_writeIds_member [OF _ mem])
      have "distinct new" using dist by (simp add: nw)
      then show "distinct (map fst ?succ)" by (rule distinct_fst_filter_zip)
    qed
    finally have "getProp (instValue (heap s' (new ! k))) CUSTOM_OBJECT_ID_FIELD
        = idValue (result_id (insResults ! k))"
      by (simp add: getProp_setProp_same)
    with app adds unmatched show ?thesis
      by (simp add: o refs results fetched)
  next
    assume "oper = Update \<and> refs = existing \<and> results = updResults"
    then have o: "oper = Update" and refs: "refs = existing" and results: "results = updResults"
      by simp_all
    from k len_ex have "(existing ! k, updResults ! k) \<in> set (zip existing updResults)"
      by (intro zip_nth_member) (simp_all add: refs)
    with succ have "(existing ! k, updResults ! k)
        \<in> set (filter (\<lambda>(i, r). result_success r) (zip existing updResults))"
      by (simp add: results)
    then have "existing ! k \<in> set (map fst (filter (\<lambda>(i, r). result_success r) (zip existing updResults)))"
      by force
    then have app: "Addition (refs ! k) \<in> set (appliedChanges r)"
      unfolding applied refs by (simp only: set_map set_append) blast
    have mem: "existing ! k \<in> set existing" using k by (simp add: refs)
    then have matched: "matchesExisting ev idFields ?type records (heap s) (existing ! k)"
      by (simp add: ex)
    from heap_ex [OF dist mem] obtain m where
      m: "existingRecordsLookup ev idFields ?type records
            (computeSaltoIdHash ev idFields (instValue (heap s (existing ! k)))) = Some m"
      and hp: "heap s' (existing ! k) = (heap s (existing ! k))\<lparr>instValue :=
          setProp CUSTOM_OBJECT_ID_FIELD (getProp m CUSTOM_OBJECT_ID_FIELD)
            (instValue (heap s (existing ! k)))\<rparr>"
      by blast
    from m have "m = last (filter
        (\<lambda>x. computeRecordSaltoIdHash ev idFields ?type x
             = computeSaltoIdHash ev idFields (instValue (heap s (existing ! k)))) records)"
      by (simp add: existingRecordsLookup_def keyBy_Some_last)
    with hp have "getProp (instValue (heap s' (existing ! k))) CUSTOM_OBJECT_ID_FIELD
        = getProp (last (filter
            (\<lambda>x. computeRecordSaltoIdHash ev idFields ?type x
                 = computeSaltoIdHash ev idFields (instValue (heap s (existing ! k)))) records))
            CUSTOM_OBJECT_ID_FIELD"
      by (simp add: getProp_setProp_same)
    with app adds matched show ?thesis
      by (simp add: o refs results fetched)
  qed
qed

theorem add_success_is_reported_as_addition_witness:
  "Addition 0 \<in> set (appliedChanges \<lparr>appliedChanges = [Addition 1, Addition 0], errors = []\<rparr>)
   \<and> getProp (instValue (heap (snd (deployAddInstances exampleEnv (remoteStore [acme] []) [0, 1]
                                     [''Name''] exampleState)) 0)) CUSTOM_OBJECT_ID_FIELD
       = Str ''001''
   \<and> getProp (instValue (heap (snd (deployAddInstances exampleEnv (remoteStore [acme] []) [0, 1]
                                     [''Name''] exampleState)) 1)) CUSTOM_OBJECT_ID_FIELD
       = Str ''002''"
proof -
  let ?run = "deployAddInstances exampleEnv (remoteStore [acme] []) [0, 1] [''Name''] exampleState"
  let ?r = "\<lparr>appliedChanges = [Addition 1, Addition 0], errors = []\<rparr>"
  have res: "fst ?run = Inr ?r" by code_simp
  then have run: "?run = (Inr ?r, snd ?run)" by (metis prod.collapse)
  have upd: "(BulkLoad ''Acc'' Update [0] [[(''Name'', Str ''A''), (''Id'', Str ''001'')]],
              BulkResults [succeeded None]) \<in> set (newCalls exampleState (snd ?run))"
    by code_simp
  have ins: "(BulkLoad ''Acc'' Insert [1] [[(''Name'', Str ''B'')]],
              BulkResults [succeeded (Some ''002'')]) \<in> set (newCalls exampleState (snd ?run))"
    by code_simp
  have s0: "result_success ([succeeded None] ! 0)" by (simp add: succeeded_def)
  have s1: "result_success ([succeeded (Some ''002'')] ! 0)" by (simp add: succeeded_def)
  from add_success_is_reported_as_addition [OF run _ upd _ s0]
  have "Addition 0 \<in> set (appliedChanges ?r)"
    and "getProp (instValue (heap (snd ?run) 0)) CUSTOM_OBJECT_ID_FIELD
      = getProp (last (filter
          (\<lambda>m. computeRecordSaltoIdHash exampleEnv [''Name''] (instType (heap exampleState (hd [0, 1]))) m
               = computeSaltoIdHash exampleEnv [''Name''] (instValue (heap exampleState 0)))
          (fetchedRecords (newCalls exampleState (snd ?run))))) CUSTOM_OBJECT_ID_FIELD"
    by simp_all
  moreover have "getProp (last (filter
          (\<lambda>m. computeRecordSaltoIdHash exampleEnv [''Name''] (instType (heap exampleState (hd [0, 1]))) m
               = computeSaltoIdHash exampleEnv [''Name''] (instValue (heap exampleState 0)))
          (fetchedRecords (newCalls exampleState (snd ?run))))) CUSTOM_OBJECT_ID_FIELD = Str ''001''"
    by code_simp
  moreover from add_success_is_reported_as_addition [OF run _ ins _ s1]
  have "getProp (instValue (heap (snd ?run) 1)) CUSTOM_OBJECT_ID_FIELD = Str ''002''"
    by (simp add: succeeded_def idValue_def)
  ultimately show ?thesis by simp
qed

text \<open>
  C2 as stated fails: instance \<open>0\<close> matches the record the store holds, the bulk update
  succeeds for it, and the change reported for it is an addition, not a modification.
\<close>

theorem matched_add_reported_as_modify_counterexample:
  "fst (deployAddInstances exampleEnv (remoteStore [acme] []) [0] [''Name''] exampleState)
     = Inr \<lparr>appliedChanges = [Addition 0], errors = []\<rparr>
   \<and> newCalls exampleState
        (snd (deployAddInstances exampleEnv (remoteStore [acme] []) [0] [''Name''] exampleState))
     = [(QueryAll ''SELECT Id,Name FROM Acc'', QueryRecords [acme]),
        (BulkLoad ''Acc'' Update [0] [[(''Name'', Str ''A''), (''Id'', Str ''001'')]],
         BulkResults [succeeded None])]
   \<and> \<not> list_ex isModificationChange [Addition 0]"
  by code_simp

subsection \<open>Additions: a partial failure\<close>

lemma bulkEntry_results:
  "(BulkLoad t oper refs recs, BulkResults results) = bulkEntry cl tr t' oper' refs' recs' \<Longrightarrow>
   bulkLoadOperation cl tr t' oper' recs' = Inr results"
  by (cases "bulkLoadOperation cl tr t' oper' recs'") (simp_all add: bulkEntry_def)

text \<open>
  C3. Let the bulk insert of a group of additions be made for three instances and answered
  with a success, a failure that has error strings, and a success. Then the deployment
  returns a result with exactly the two applied additions of the first and the third
  instance and exactly one error, the message of the second; and the second instance, an
  object of its own, is left as it was: its \<^verbatim>\<open>Id\<close> is never written.
\<close>

theorem partial_failure_of_three_inserts:
  assumes run: "deployAddInstances ev cl [a, b, c] idFields s = (res, s')"
    and call: "(BulkLoad typeName Insert [a, b, c] records, BulkResults [ra, rb, rc])
               \<in> set (newCalls s s')"
    and ra: "result_success ra"
    and rb: "\<not> result_success rb" "result_errors rb = Some es"
    and rc: "result_success rc"
    and other: "b \<noteq> a" "b \<noteq> c"
  shows "\<exists>r. res = Inr r
           \<and> appliedChanges r = [Addition a, Addition c]
           \<and> errors r = [Error (elemName (heap s b) @ '':'' @ [CHR 0x0A] @ ''    '' @ [CHR 0x09]
                                  @ join [CHR 0x0A, CHR 0x09] es)]
           \<and> heap s' b = heap s b"
proof -
  let ?insts = "[a, b, c]"
  let ?type = "instType (heap s a)"
  have hd: "instType (heap s (hd ?insts)) = ?type" by simp
  from run call obtain fetched s1 where
    ne: "?insts \<noteq> []"
    and g: "getRecordsBySaltoIds ev cl ?type ?insts idFields s = (Inr fetched, s1)"
    and f: "fetchedRecords (newCalls s s') = fetched"
    and t: "typeName = typeApiName ?type"
    and shape: "Insert = Insert
       \<and> ?insts = filter (Not \<circ> matchesExisting ev idFields ?type fetched (heap s)) ?insts
       \<and> (BulkLoad typeName Insert ?insts records, BulkResults [ra, rb, rc])
           = bulkEntry cl (log s1) typeName Insert ?insts (instancesToCreateRecords ev (map (heap s) ?insts))
     \<or> Insert = Update
       \<and> ?insts = filter (matchesExisting ev idFields ?type fetched (heap s)) ?insts"
    unfolding hd [symmetric] by (rule deployAddInstances_calls)
  let ?P = "matchesExisting ev idFields ?type fetched (heap s)"
  from shape have "?insts = filter (Not \<circ> ?P) ?insts
      \<and> (BulkLoad typeName Insert ?insts records, BulkResults [ra, rb, rc])
           = bulkEntry cl (log s1) typeName Insert ?insts (instancesToCreateRecords ev (map (heap s) ?insts))"
    using operation.distinct by blast
  then have new': "?insts = filter (Not \<circ> ?P) ?insts"
    and entry: "(BulkLoad typeName Insert ?insts records, BulkResults [ra, rb, rc])
           = bulkEntry cl (log s1) typeName Insert ?insts (instancesToCreateRecords ev (map (heap s) ?insts))"
    by (rule conjunct1, rule conjunct2)
  from new' have new: "filter (Not \<circ> ?P) ?insts = ?insts"
    by (rule sym)
  from new have "\<forall>x \<in> set ?insts. (Not \<circ> ?P) x" by (simp only: filter_id_conv)
  then have existing: "filter ?P ?insts = []" by simp
  have h1: "heap s1 = heap s" using g by (rule getRecordsBySaltoIds_heap)
  have bulk: "bulkLoadOperation cl (log s1) typeName Insert
      (instancesToCreateRecords ev (map (heap s1) ?insts)) = Inr [ra, rb, rc]"
    using bulkEntry_results [OF entry] by (simp add: h1)
  let ?s2 = "writeIds [(a, ra), (c, rc)]
      (logged s1 (BulkLoad typeName Insert ?insts (instancesToCreateRecords ev (map (heap s1) ?insts)))
         (BulkResults [ra, rb, rc]))"
  let ?msg = "elemName (heap s b) @ '':'' @ [CHR 0x0A] @ ''    '' @ [CHR 0x09]
      @ join [CHR 0x0A, CHR 0x09] es"
  have ins: "insertInstances ev cl typeName ?insts s1
      = (Inr \<lparr>successInstances = [a, c], errorMessages = [?msg]\<rparr>, ?s2)"
    using bulk ra rb rc
    by (simp add: insertInstances_eq Let_def failedResult_def getErrorMessagesFromInstAndResults_def h1)
  have "deployAddInstances ev cl ?insts idFields s
      = (Inr \<lparr>appliedChanges = [Addition a, Addition c], errors = [Error ?msg]\<rparr>, ?s2)"
    unfolding deployAddInstances_unfold [OF ne] hd
    by (simp only: g new existing ins [unfolded t] updateInstances_empty assignExistingIds.simps
          prod.case sum.case ActionResult.simps append_Nil2 list.map t)
  with run have res: "res = Inr \<lparr>appliedChanges = [Addition a, Addition c], errors = [Error ?msg]\<rparr>"
    and s': "s' = ?s2"
    by simp_all
  have "heap ?s2 b = heap s1 b"
    using other by (simp add: heap_writeIds_other)
  then have "heap s' b = heap s b" by (simp add: s' h1)
  with res show ?thesis by simp
qed

theorem partial_failure_of_three_inserts_witness:
  "fst (deployAddInstances exampleEnv (remoteStore [] [''B'']) [0, 1, 2] [''Name''] exampleState)
     = Inr \<lparr>appliedChanges = [Addition 0, Addition 2],
            errors = [Error (''b:'' @ [CHR 0x0A] @ ''    '' @ [CHR 0x09] @ ''DUPLICATE_VALUE'')]\<rparr>
   \<and> heap (snd (deployAddInstances exampleEnv (remoteStore [] [''B'']) [0, 1, 2] [''Name''] exampleState)) 1
     = exampleHeap 1"
proof -
  let ?run = "deployAddInstances exampleEnv (remoteStore [] [''B'']) [0, 1, 2] [''Name''] exampleState"
  have call: "(BulkLoad ''Acc'' Insert [0, 1, 2]
                 [[(''Name'', Str ''A'')], [(''Name'', Str ''B'')], [(''Name'', Str ''C'')]],
               BulkResults [succeeded (Some ''002''), failed [''DUPLICATE_VALUE''], succeeded (Some ''002'')])
              \<in> set (newCalls exampleState (snd ?run))"
    by code_simp
  have name: "elemName (heap exampleState (Suc 0)) = ''b''" by code_simp
  from partial_failure_of_three_inserts [OF prod.collapse [symmetric] call, of "[''DUPLICATE_VALUE'']"]
  obtain r where r: "fst ?run = Inr r"
    and applied: "appliedChanges r = [Addition 0, Addition 2]"
    and errs: "errors r = [Error (elemName (heap exampleState 1) @ '':'' @ [CHR 0x0A] @ ''    '' @ [CHR 0x09]
                                  @ join [CHR 0x0A, CHR 0x09] [''DUPLICATE_VALUE''])]"
    and same: "heap (snd ?run) 1 = heap exampleState 1"
    by (auto simp: succeeded_def failed_def)
  from applied errs have "r = \<lparr>appliedChanges = [Addition 0, Addition 2],
      errors = [Error (''b:'' @ [CHR 0x0A] @ ''    '' @ [CHR 0x09] @ ''DUPLICATE_VALUE'')]\<rparr>"
    by (cases r) (simp add: name)
  with r same show ?thesis
    by (simp add: exampleState_def)
qed

text \<open>
  C10. In a group of additions deployed without a fatal error (the instances distinct),
  the records of the bulk update are made from the matched instances after the \<^verbatim>\<open>Id\<close> of
  their matched record has been written into them. An instance for which that update
  reports a failure keeps the written \<^verbatim>\<open>Id\<close>, the one of the last fetched record with its
  hash, and is not among the applied changes.
\<close>

theorem failed_update_keeps_remote_id:
  assumes run: "deployAddInstances ev cl instances idFields s = (Inr r, s')"
    and dist: "distinct instances"
    and call: "(BulkLoad typeName Update refs sent, BulkResults results) \<in> set (newCalls s s')"
    and k: "k < length refs"
    and failure: "\<not> result_success (results ! k)"
  shows "sent = instancesToUpdateRecords ev
           (map (\<lambda>j. withRemoteId ev idFields (instType (heap s (hd instances)))
                        (fetchedRecords (newCalls s s')) (heap s j)) refs)
       \<and> matchesExisting ev idFields (instType (heap s (hd instances)))
            (fetchedRecords (newCalls s s')) (heap s) (refs ! k)
       \<and> heap s' (refs ! k)
           = withRemoteId ev idFields (instType (heap s (hd instances)))
               (fetchedRecords (newCalls s s')) (heap s (refs ! k))
       \<and> getProp (instValue (heap s' (refs ! k))) CUSTOM_OBJECT_ID_FIELD
           = getProp (last (filter
               (\<lambda>m. computeRecordSaltoIdHash ev idFields (instType (heap s (hd instances))) m
                    = computeSaltoIdHash ev idFields (instValue (heap s (refs ! k))))
               (fetchedRecords (newCalls s s')))) CUSTOM_OBJECT_ID_FIELD
       \<and> Addition (refs ! k) \<notin> set (appliedChanges r)"
proof -
  let ?type = "instType (heap s (hd instances))"
  from run obtain qtr records existing new insResults updResults where
    ne: "instances \<noteq> []"
    and q: "list_all isQuery qtr" and qok: "\<not> list_ex isRejected qtr"
    and recs: "records = fetchedRecords qtr"
    and ex: "existing = filter (matchesExisting ev idFields ?type records (heap s)) instances"
    and nw: "new = filter (Not \<circ> matchesExisting ev idFields ?type records (heap s)) instances"
    and len_new: "length new \<le> length insResults"
    and len_ex: "length existing \<le> length updResults"
    and tr: "newCalls s s' = qtr
       @ (if new = [] then []
          else [(BulkLoad (typeApiName ?type) Insert new
                   (instancesToCreateRecords ev (map (heap s) new)), BulkResults insResults)])
       @ (if existing = [] then []
          else [(BulkLoad (typeApiName ?type) Update existing
                   (instancesToUpdateRecords ev (map (heap s') existing)), BulkResults updResults)])"
    and heap_other: "\<And>j. j \<notin> set existing \<Longrightarrow>
       heap s' j = heap (writeIds (filter (\<lambda>(i, r). result_success r) (zip new insResults)) s) j"
    and heap_ex: "\<And>j. distinct instances \<Longrightarrow> j \<in> set existing \<Longrightarrow>
       \<exists>m. existingRecordsLookup ev idFields ?type records
             (computeSaltoIdHash ev idFields (instValue (heap s j))) = Some m
         \<and> heap s' j = (heap s j)\<lparr>instValue :=
              setProp CUSTOM_OBJECT_ID_FIELD (getProp m CUSTOM_OBJECT_ID_FIELD) (instValue (heap s j))\<rparr>"
    and applied: "appliedChanges r = map Addition
       (map fst (filter (\<lambda>(i, r). result_success r) (zip new insResults))
        @ map fst (filter (\<lambda>(i, r). result_success r) (zip existing updResults)))"
    and errs: "errors r = map Error
       (getErrorMessagesFromInstAndResults (heap s) (filter (\<lambda>(i, r). failedResult r) (zip new insResults))
        @ getErrorMessagesFromInstAndResults (heap s)
            (filter (\<lambda>(i, r). failedResult r) (zip existing updResults)))"
    by (rule deployAddInstances_shape) blast
  have fetched: "fetchedRecords (newCalls s s') = records'" if "records' = records" for records'
    unfolding tr recs that by (rule fetchedRecords_add_run)
  note fetched = fetched [OF refl]
  from call isQuery_not_bulk [OF q] have
    refs: "refs = existing" and sent: "sent = instancesToUpdateRecords ev (map (heap s') existing)"
    and results: "results = updResults"
    by (auto simp: tr split: if_splits)
  have written: "heap s' j = withRemoteId ev idFields ?type records (heap s j)"
    if "j \<in> set existing" for j
    using heap_ex [OF dist that] by (auto simp: withRemoteId_def)
  then have maps: "map (heap s') existing
      = map (\<lambda>j. withRemoteId ev idFields ?type records (heap s j)) existing"
    by (intro map_cong refl)
  have 1: "sent = instancesToUpdateRecords ev
      (map (\<lambda>j. withRemoteId ev idFields ?type records (heap s j)) refs)"
    by (simp only: sent refs maps)
  have mem: "existing ! k \<in> set existing" using k by (simp add: refs)
  then have 2: "matchesExisting ev idFields ?type records (heap s) (existing ! k)"
    by (simp add: ex)
  have 3: "heap s' (existing ! k) = withRemoteId ev idFields ?type records (heap s (existing ! k))"
    using mem by (rule written)
  from heap_ex [OF dist mem] obtain m where
    m: "existingRecordsLookup ev idFields ?type records
          (computeSaltoIdHash ev idFields (instValue (heap s (existing ! k)))) = Some m"
    and hp: "heap s' (existing ! k) = (heap s (existing ! k))\<lparr>instValue :=
        setProp CUSTOM_OBJECT_ID_FIELD (getProp m CUSTOM_OBJECT_ID_FIELD)
          (instValue (heap s (existing ! k)))\<rparr>"
    by blast
  from m have "m = last (filter
      (\<lambda>x. computeRecordSaltoIdHash ev idFields ?type x
           = computeSaltoIdHash ev idFields (instValue (heap s (existing ! k)))) records)"
    by (simp add: existingRecordsLookup_def keyBy_Some_last)
  with hp have 4: "getProp (instValue (heap s' (existing ! k))) CUSTOM_OBJECT_ID_FIELD
      = getProp (last (filter
          (\<lambda>x. computeRecordSaltoIdHash ev idFields ?type x
               = computeSaltoIdHash ev idFields (instValue (heap s (existing ! k)))) records))
          CUSTOM_OBJECT_ID_FIELD"
    by (simp add: getProp_setProp_same)
  have 5: "Addition (existing ! k) \<notin> set (appliedChanges r)"
  proof
    assume "Addition (existing ! k) \<in> set (appliedChanges r)"
    then have "existing ! k \<in> fst ` set (filter (\<lambda>(i, r). result_success r) (zip new insResults))
        \<or> existing ! k \<in> fst ` set (filter (\<lambda>(i, r). result_success r) (zip existing updResults))"
      unfolding applied by (simp only: set_map set_append) blast
    then show False
    proof
      assume "existing ! k \<in> fst ` set (filter (\<lambda>(i, r). result_success r) (zip new insResults))"
      then have "existing ! k \<in> set new" by (auto dest: set_zip_leftD)
      with 2 show False by (simp add: nw)
    next
      assume "existing ! k \<in> fst ` set (filter (\<lambda>(i, r). result_success r) (zip existing updResults))"
      then obtain q where "(existing ! k, q) \<in> set (zip existing updResults)" "result_success q"
        by auto
      then obtain n where n: "n < length existing" "existing ! n = existing ! k" "updResults ! n = q"
        by (auto simp: set_zip)
      have "distinct existing" using dist by (simp add: ex)
      with n(1,2) k have "n = k" by (simp add: nth_eq_iff_index_eq refs)
      with n(3) \<open>result_success q\<close> failure show False by (simp add: results)
    qed
  qed
  from 1 2 3 4 5 show ?thesis
    by (simp add: fetched refs)
qed

theorem failed_update_keeps_remote_id_witness:
  "fst (deployAddInstances exampleEnv (remoteStore [acme] [''A'']) [0, 1] [''Name''] exampleState)
     = Inr \<lparr>appliedChanges = [Addition 1],
            errors = [Error (''a:'' @ [CHR 0x0A] @ ''    '' @ [CHR 0x09] @ ''DUPLICATE_VALUE'')]\<rparr>
   \<and> getProp (instValue (heap (snd (deployAddInstances exampleEnv (remoteStore [acme] [''A'']) [0, 1]
                                     [''Name''] exampleState)) 0)) CUSTOM_OBJECT_ID_FIELD
       = Str ''001''
   \<and> Addition 0 \<notin> set [Addition 1]"
proof -
  let ?run = "deployAddInstances exampleEnv (remoteStore [acme] [''A'']) [0, 1] [''Name''] exampleState"
  let ?r = "\<lparr>appliedChanges = [Addition 1],
            errors = [Error (''a:'' @ [CHR 0x0A] @ ''    '' @ [CHR 0x09] @ ''DUPLICATE_VALUE'')]\<rparr>"
  have res: "fst ?run = Inr ?r" by code_simp
  then have run: "?run = (Inr ?r, snd ?run)" by (metis prod.collapse)
  have upd: "(BulkLoad ''Acc'' Update [0] [[(''Name'', Str ''A''), (''Id'', Str ''001'')]],
              BulkResults [failed [''DUPLICATE_VALUE'']]) \<in> set (newCalls exampleState (snd ?run))"
    by code_simp
  have f: "\<not> result_success ([failed [''DUPLICATE_VALUE'']] ! 0)" by (simp add: failed_def)
  have d: "distinct [0, 1 :: ref]" and k: "0 < length [0 :: ref]" by simp_all
  note c = failed_update_keeps_remote_id [OF run d upd k f, unfolded nth_Cons_0]
  from c have "getProp (instValue (heap (snd ?run) 0)) CUSTOM_OBJECT_ID_FIELD
      = getProp (last (filter
          (\<lambda>m. computeRecordSaltoIdHash exampleEnv [''Name''] (instType (heap exampleState (hd [0, 1]))) m
               = computeSaltoIdHash exampleEnv [''Name''] (instValue (heap exampleState 0)))
          (fetchedRecords (newCalls exampleState (snd ?run))))) CUSTOM_OBJECT_ID_FIELD"
    and "Addition 0 \<notin> set (appliedChanges ?r)"
    by blast+
  moreover have "getProp (last (filter
          (\<lambda>m. computeRecordSaltoIdHash exampleEnv [''Name''] (instType (heap exampleState (hd [0, 1]))) m
               = computeSaltoIdHash exampleEnv [''Name''] (instValue (heap exampleState 0)))
          (fetchedRecords (newCalls exampleState (snd ?run))))) CUSTOM_OBJECT_ID_FIELD = Str ''001''"
    by code_simp
  ultimately show ?thesis using res by simp
qed

subsection \<open>Additions: instances with the same identity hash\<close>

lemma perRecordFailures_append [simp]:
  "perRecordFailures (tr1 @ tr2) = perRecordFailures tr1 + perRecordFailures tr2"
  by (induction tr1 rule: perRecordFailures.induct) auto


lemma failures_of_zip:
  "length (filter (\<lambda>(i, r). failedResult r) (zip refs results))
   = length (filter failedResult (take (length refs) results))"
proof -
  have "filter failedResult (map snd (zip refs results))
      = map snd (filter (\<lambda>(i, r). failedResult r) (zip refs results))"
    by (simp add: filter_map comp_def case_prod_unfold)
  then have "length (filter (\<lambda>(i, r). failedResult r) (zip refs results))
      = length (filter failedResult (map snd (zip refs results)))"
    by simp
  also have "map snd (zip refs results) = take (length refs) results"
    by (simp add: map_snd_zip_take min_def)
  finally show ?thesis .
qed

lemma length_error_messages [simp]:
  "length (getErrorMessagesFromInstAndResults h xs) = length xs"
  by (simp add: getErrorMessagesFromInstAndResults_def)




subsection \<open>Fatal errors\<close>

lemma deployAddInstances_not_rejected:
  assumes run: "deployAddInstances ev cl instances idFields s = (Inr r, s')"
  shows "\<not> list_ex isRejected (newCalls s s')"
proof -
  let ?type = "instType (heap s (hd instances))"
  from run obtain qtr records existing new insResults updResults where
    ne: "instances \<noteq> []"
    and q: "list_all isQuery qtr" and qok: "\<not> list_ex isRejected qtr"
    and recs: "records = fetchedRecords qtr"
    and ex: "existing = filter (matchesExisting ev idFields ?type records (heap s)) instances"
    and nw: "new = filter (Not \<circ> matchesExisting ev idFields ?type records (heap s)) instances"
    and len_new: "length new \<le> length insResults"
    and len_ex: "length existing \<le> length updResults"
    and tr: "newCalls s s' = qtr
       @ (if new = [] then []
          else [(BulkLoad (typeApiName ?type) Insert new
                   (instancesToCreateRecords ev (map (heap s) new)), BulkResults insResults)])
       @ (if existing = [] then []
          else [(BulkLoad (typeApiName ?type) Update existing
                   (instancesToUpdateRecords ev (map (heap s') existing)), BulkResults updResults)])"
    and heap_other: "\<And>j. j \<notin> set existing \<Longrightarrow>
       heap s' j = heap (writeIds (filter (\<lambda>(i, r). result_success r) (zip new insResults)) s) j"
    and heap_ex: "\<And>j. distinct instances \<Longrightarrow> j \<in> set existing \<Longrightarrow>
       \<exists>m. existingRecordsLookup ev idFields ?type records
             (computeSaltoIdHash ev idFields (instValue (heap s j))) = Some m
         \<and> heap s' j = (heap s j)\<lparr>instValue :=
              setProp CUSTOM_OBJECT_ID_FIELD (getProp m CUSTOM_OBJECT_ID_FIELD) (instValue (heap s j))\<rparr>"
    and applied: "appliedChanges r = map Addition
       (map fst (filter (\<lambda>(i, r). result_success r) (zip new insResults))
        @ map fst (filter (\<lambda>(i, r). result_success r) (zip existing updResults)))"
    and errs: "errors r = map Error
       (getErrorMessagesFromInstAndResults (heap s) (filter (\<lambda>(i, r). failedResult r) (zip new insResults))
        @ getErrorMessagesFromInstAndResults (heap s)
            (filter (\<lambda>(i, r). failedResult r) (zip existing updResults)))"
    by (rule deployAddInstances_shape) blast
  show ?thesis using qok by (simp add: tr)
qed

lemma deployRemoveInstances_not_rejected:
  assumes "deployRemoveInstances ev cl instances s = (Inr r, s')"
  shows "\<not> list_ex isRejected (newCalls s s')"
proof -
  from assms obtain i0 rest where inst: "instances = i0 # rest"
    by (cases instances) (auto simp: deployRemoveInstances_def)
  let ?tn = "typeApiName (instType (heap s i0))"
  obtain res1 s1 where d: "deleteInstances ev cl ?tn instances s = (res1, s1)" by force
  with assms inst have s1: "s1 = s'" and ok: "\<exists>a. res1 = Inr a"
    by (auto simp: deployRemoveInstances_def split: sum.splits)
  from ok d have "bulkLoadOperation cl (log s) ?tn Delete
      (instancesToDeleteRecords ev (map (heap s) instances)) \<noteq> Inl e" for e
    by (auto simp: deleteInstances_eq Let_def)
  then obtain results where "bulkLoadOperation cl (log s) ?tn Delete
      (instancesToDeleteRecords ev (map (heap s) instances)) = Inr results"
    by (cases "bulkLoadOperation cl (log s) ?tn Delete
      (instancesToDeleteRecords ev (map (heap s) instances))") auto
  with deleteInstances_log [OF d] show ?thesis
    by (simp add: s1 newCalls_def bulkEntry_def)
qed

lemma deployModifyChanges_not_rejected:
  assumes "deployModifyChanges ev cl changesData s = (Inr r, s')"
  shows "\<not> list_ex isRejected (newCalls s s')"
proof -
  from assms obtain d0 rest where ch: "changesData = d0 # rest"
    by (cases changesData) (auto simp: deployModifyChanges_def)
  let ?tn = "typeApiName (instType (heap s (snd d0)))"
  let ?afters = "map snd (filter (sameApiName ev (heap s)) changesData)"
  obtain res1 s1 where u: "updateInstances ev cl ?tn ?afters s = (res1, s1)" by force
  with assms ch obtain updated where s1: "s1 = s'" and ok: "res1 = Inr updated"
    unfolding deployModifyChanges_def Let_def partition_filter_conv
    by (auto split: sum.splits)
  from u [unfolded ok] obtain results where
    "log s1 = log s @ (if ?afters = [] then []
       else [(BulkLoad ?tn Update ?afters (instancesToUpdateRecords ev (map (heap s) ?afters)),
              BulkResults results)])"
    by (rule updateInstances_Inr)
  then show ?thesis
    by (simp add: s1 [symmetric] newCalls_def)
qed

lemma deployGroupBody_Inr:
  assumes "deployGroupBody ev cl changes dm s = (Inr r, s')"
  shows "\<not> multipleTypes (heap s) changes \<and> \<not> missingDataManagement (heap s) changes dm
       \<and> \<not> invalidSaltoIdFields ev (heap s) changes dm \<and> \<not> mixedActions changes
       \<and> \<not> list_ex isRejected (newCalls s s')"
proof -
  from assms have types: "\<not> multipleTypes (heap s) changes"
    by (auto simp: deployGroupBody_def multipleTypes_def Let_def split: if_splits)
  from assms types obtain c cs where ch: "changes = c # cs"
    by (cases changes) (auto simp: deployGroupBody_def multipleTypes_def Let_def)
  let ?type = "instType (heap s (getChangeElement c))"
  from assms types ch obtain d where dm: "actualDataManagement (heap s) changes dm = Some d"
    by (cases "actualDataManagement (heap s) changes dm")
       (auto simp: deployGroupBody_def multipleTypes_def actualDataManagement_def Let_def
             split: if_splits)
  have body: "deployGroupBody ev cl changes dm s =
      (if list_all isAdditionChange changes then
         (case getIdFields ev ?type d of
            (idFields, invalidFields) \<Rightarrow>
              (case invalidFields of
                 Some (f # fs) \<Rightarrow>
                   (Inl (Error (''Failed to add instances of type ''
                          @ hd (uniq (map (\<lambda>inst. typeApiName (instType (heap s inst)))
                                  (map getChangeElement changes)))
                          @ '' due to invalid SaltoIdFields - '' @ join '','' (f # fs))), s)
               | _ \<Rightarrow> deployAddInstances ev cl (map getChangeElement changes) idFields s))
       else if list_all isRemovalChange changes then
         deployRemoveInstances ev cl (map getChangeElement changes) s
       else if isModificationChangeList changes then
         deployModifyChanges ev cl (modificationData changes) s
       else (Inl (Error ''Custom Object Instances change group must have one action''), s))"
    using types dm unfolding ch
    by (simp add: deployGroupBody_def multipleTypes_def actualDataManagement_def Let_def)
  note run = assms [unfolded body]
  have mixed: "\<not> mixedActions changes"
    using run unfolding mixedActions_def by (auto split: if_splits)
  have invalid: "\<not> invalidSaltoIdFields ev (heap s) changes dm"
  proof
    assume inv: "invalidSaltoIdFields ev (heap s) changes dm"
    then have adds: "list_all isAdditionChange changes"
      by (simp add: invalidSaltoIdFields_def)
    from inv dm obtain f fs where "snd (getIdFields ev ?type d) = Some (f # fs)"
      by (auto simp: invalidSaltoIdFields_def ch split: option.splits list.splits)
    with run adds show False
      by (auto split: prod.splits)
  qed
  have "\<not> list_ex isRejected (newCalls s s')"
  proof (cases "list_all isAdditionChange changes")
    case True
    obtain idFields invalidFields where g: "getIdFields ev ?type d = (idFields, invalidFields)"
      by force
    from run True g have "deployAddInstances ev cl (map getChangeElement changes) idFields s = (Inr r, s')"
      by (auto split: option.splits list.splits)
    then show ?thesis by (rule deployAddInstances_not_rejected)
  next
    case False
    show ?thesis
    proof (cases "list_all isRemovalChange changes")
      case True
      with run False have "deployRemoveInstances ev cl (map getChangeElement changes) s = (Inr r, s')"
        by simp
      then show ?thesis by (rule deployRemoveInstances_not_rejected)
    next
      case notRemovals: False
      with run False have "deployModifyChanges ev cl (modificationData changes) s = (Inr r, s')"
        by (auto split: if_splits)
      then show ?thesis by (rule deployModifyChanges_not_rejected)
    qed
  qed
  with types dm ch mixed invalid show ?thesis
    by (simp add: missingDataManagement_def)
qed

text \<open>
  C4. \<^verbatim>\<open>deployCustomObjectInstancesGroup\<close> returns a result for every input: whatever is
  thrown inside it is caught. Under each fatal condition (changes of more than one type, no
  data management, invalid identity fields for a group of additions, a group of mixed
  actions, a query or a bulk call that the client rejected) the result has no applied change
  and exactly one error.
\<close>

theorem fatal_conditions_yield_single_error:
  assumes run: "deployCustomObjectInstancesGroup ev cl changes dm s = (r, s')"
    and fatal: "multipleTypes (heap s) changes
              \<or> missingDataManagement (heap s) changes dm
              \<or> invalidSaltoIdFields ev (heap s) changes dm
              \<or> mixedActions changes
              \<or> list_ex isRejected (newCalls s s')"
  shows "\<exists>e. r = \<lparr>appliedChanges = [], errors = [e]\<rparr>"
proof -
  obtain res s1 where body: "deployGroupBody ev cl changes dm s = (res, s1)" by force
  show ?thesis
  proof (cases res)
    case (Inl e)
    with run body show ?thesis
      by (auto simp: deployCustomObjectInstancesGroup_def)
  next
    case (Inr r')
    with run body have "s1 = s'"
      by (simp add: deployCustomObjectInstancesGroup_def)
    with body Inr have "deployGroupBody ev cl changes dm s = (Inr r', s')" by simp
    from deployGroupBody_Inr [OF this] fatal show ?thesis by blast
  qed
qed

theorem fatal_conditions_yield_single_error_witness:
  "mixedActions [Addition 0, Removal 1]
   \<and> fst (deployCustomObjectInstancesGroup exampleEnv (remoteStore [] []) [Addition 0, Removal 1]
            (Some exampleDataManagement) exampleState)
       = \<lparr>appliedChanges = [],
          errors = [Error ''Custom Object Instances change group must have one action'']\<rparr>
   \<and> list_ex isRejected (newCalls exampleState
         (snd (deployCustomObjectInstancesGroup exampleEnv unreachableStore [Addition 0, Addition 1]
                 (Some exampleDataManagement) exampleState)))
   \<and> fst (deployCustomObjectInstancesGroup exampleEnv unreachableStore [Addition 0, Addition 1]
            (Some exampleDataManagement) exampleState)
       = \<lparr>appliedChanges = [], errors = [Rejected ''ECONNRESET'']\<rparr>"
proof -
  let ?mixed = "deployCustomObjectInstancesGroup exampleEnv (remoteStore [] []) [Addition 0, Removal 1]
            (Some exampleDataManagement) exampleState"
  let ?down = "deployCustomObjectInstancesGroup exampleEnv unreachableStore [Addition 0, Addition 1]
            (Some exampleDataManagement) exampleState"
  have m: "mixedActions [Addition 0, Removal 1]" by code_simp
  have rej: "list_ex isRejected (newCalls exampleState (snd ?down))" by code_simp
  from fatal_conditions_yield_single_error [where ev = exampleEnv and cl = "remoteStore [] []"
      and changes = "[Addition 0, Removal 1]" and dm = "Some exampleDataManagement"
      and s = exampleState, OF prod.collapse [symmetric]] m
  obtain e1 where e1: "fst ?mixed = \<lparr>appliedChanges = [], errors = [e1]\<rparr>" by blast
  from fatal_conditions_yield_single_error [where ev = exampleEnv and cl = unreachableStore
      and changes = "[Addition 0, Addition 1]" and dm = "Some exampleDataManagement"
      and s = exampleState, OF prod.collapse [symmetric]] rej
  obtain e2 where e2: "fst ?down = \<lparr>appliedChanges = [], errors = [e2]\<rparr>" by blast
  have "errors (fst ?mixed) = [Error ''Custom Object Instances change group must have one action'']"
    by code_simp
  with e1 have 1: "fst ?mixed = \<lparr>appliedChanges = [],
      errors = [Error ''Custom Object Instances change group must have one action'']\<rparr>"
    by simp
  have "errors (fst ?down) = [Rejected ''ECONNRESET'']" by code_simp
  with e2 have 2: "fst ?down = \<lparr>appliedChanges = [], errors = [Rejected ''ECONNRESET'']\<rparr>"
    by simp
  from m 1 rej 2 show ?thesis by blast
qed

subsection \<open>Modifications\<close>

lemma deployModifyChanges_Inr:
  assumes "deployModifyChanges ev cl changesData s = (Inr r, s')"
  obtains d0 updated where
    "d0 \<in> set changesData"
    "updateInstances ev cl (typeApiName (instType (heap s (snd d0))))
       (map snd (filter (sameApiName ev (heap s)) changesData)) s = (Inr updated, s')"
    "appliedChanges r = map (\<lambda>d. Modification (fst d) (snd d))
       (filter (\<lambda>changeData. list_ex (\<lambda>instance. heap s' instance = heap s' (snd changeData))
                  (successInstances updated))
          (filter (sameApiName ev (heap s)) changesData))"
    "errors r = map Error (errorMessages updated)
       @ map (diffApiNameError ev (heap s')) (filter (Not \<circ> sameApiName ev (heap s)) changesData)"
proof -
  from assms obtain d0 rest where ch: "changesData = d0 # rest"
    by (cases changesData) (auto simp: deployModifyChanges_def)
  let ?tn = "typeApiName (instType (heap s (snd d0)))"
  let ?valid = "filter (sameApiName ev (heap s)) changesData"
  obtain res1 s1 where u: "updateInstances ev cl ?tn (map snd ?valid) s = (res1, s1)" by force
  have eq: "deployModifyChanges ev cl changesData s =
      (case updateInstances ev cl ?tn (map snd ?valid) s of
         (Inl e, s1) \<Rightarrow> (Inl e, s1)
       | (Inr updated, s1) \<Rightarrow>
           (Inr \<lparr>appliedChanges = map (\<lambda>d. Modification (fst d) (snd d))
                   (filter (\<lambda>changeData. list_ex (\<lambda>instance. heap s1 instance = heap s1 (snd changeData))
                              (successInstances updated)) ?valid),
                 errors = map Error (errorMessages updated)
                   @ map (diffApiNameError ev (heap s1))
                       (filter (Not \<circ> sameApiName ev (heap s)) changesData)\<rparr>, s1))"
    unfolding deployModifyChanges_def ch Let_def list.case partition_filter_conv prod.case
    by (rule refl)
  from assms u obtain updated where "res1 = Inr updated" "s1 = s'"
    and "r = \<lparr>appliedChanges = map (\<lambda>d. Modification (fst d) (snd d))
                   (filter (\<lambda>changeData. list_ex (\<lambda>instance. heap s1 instance = heap s1 (snd changeData))
                              (successInstances updated)) ?valid),
                 errors = map Error (errorMessages updated)
                   @ map (diffApiNameError ev (heap s1))
                       (filter (Not \<circ> sameApiName ev (heap s)) changesData)\<rparr>"
    unfolding eq by (cases res1) auto
  with u that [of d0 updated] ch show thesis by simp
qed

lemma deployModifyChanges_outcome:
  assumes run: "deployModifyChanges ev cl changesData s = (Inr r, s')"
  shows "(\<forall>typeName oper refs sent resp.
            (BulkLoad typeName oper refs sent, resp) \<in> set (newCalls s s')
            \<longrightarrow> oper = Update \<and> refs = map snd (filter (sameApiName ev (heap s)) changesData))
       \<and> (filter (sameApiName ev (heap s)) changesData \<noteq> [] \<longrightarrow>
            (\<exists>typeName sent results.
               newCalls s s' = [(BulkLoad typeName Update
                  (map snd (filter (sameApiName ev (heap s)) changesData)) sent, BulkResults results)]))
       \<and> (\<exists>messages.
            errors r = map Error messages
              @ map (diffApiNameError ev (heap s)) (filter (Not \<circ> sameApiName ev (heap s)) changesData)
            \<and> length messages = perRecordFailures (newCalls s s'))
       \<and> (\<forall>typeName refs sent results k.
            (BulkLoad typeName Update refs sent, BulkResults results) \<in> set (newCalls s s')
            \<longrightarrow> k < length refs \<longrightarrow> result_success (results ! k)
            \<longrightarrow> Modification (fst (filter (sameApiName ev (heap s)) changesData ! k)) (refs ! k)
                  \<in> set (appliedChanges r))"
proof -
  let ?valid = "filter (sameApiName ev (heap s)) changesData"
  let ?afters = "map snd ?valid"
  from run obtain d0 updated where
    d0: "d0 \<in> set changesData"
    and u: "updateInstances ev cl (typeApiName (instType (heap s (snd d0)))) ?afters s = (Inr updated, s')"
    and applied: "appliedChanges r = map (\<lambda>d. Modification (fst d) (snd d))
       (filter (\<lambda>changeData. list_ex (\<lambda>instance. heap s' instance = heap s' (snd changeData))
                  (successInstances updated)) ?valid)"
    and errs: "errors r = map Error (errorMessages updated)
       @ map (diffApiNameError ev (heap s')) (filter (Not \<circ> sameApiName ev (heap s)) changesData)"
    by (rule deployModifyChanges_Inr)
  let ?tn = "typeApiName (instType (heap s (snd d0)))"
  from u obtain results where
    len: "length ?afters \<le> length results"
    and lg: "log s' = log s @ (if ?afters = [] then []
       else [(BulkLoad ?tn Update ?afters (instancesToUpdateRecords ev (map (heap s) ?afters)),
              BulkResults results)])"
    and hp: "heap s' = heap s"
    and succ: "successInstances updated
       = map fst (filter (\<lambda>(i, r). result_success r) (zip ?afters results))"
    and msgs: "errorMessages updated = getErrorMessagesFromInstAndResults (heap s)
       (filter (\<lambda>(i, r). failedResult r) (zip ?afters results))"
    by (rule updateInstances_Inr)
  have tr: "newCalls s s' = (if ?afters = [] then []
       else [(BulkLoad ?tn Update ?afters (instancesToUpdateRecords ev (map (heap s) ?afters)),
              BulkResults results)])"
    using lg by (rule newCalls_append)
  have 1: "oper = Update \<and> refs = ?afters"
    if "(BulkLoad typeName oper refs sent, resp) \<in> set (newCalls s s')"
    for typeName oper refs sent resp
    using that by (auto simp: tr split: if_splits)
  have 2: "?valid \<noteq> [] \<longrightarrow>
      (\<exists>typeName sent results. newCalls s s' = [(BulkLoad typeName Update ?afters sent, BulkResults results)])"
    by (simp add: tr)
  have "length (errorMessages updated) = perRecordFailures (newCalls s s')"
    by (simp add: msgs tr failures_of_zip)
  then have 3: "\<exists>messages.
      errors r = map Error messages
        @ map (diffApiNameError ev (heap s)) (filter (Not \<circ> sameApiName ev (heap s)) changesData)
      \<and> length messages = perRecordFailures (newCalls s s')"
    using errs hp by auto
  have 4: "Modification (fst (?valid ! k)) (refs ! k) \<in> set (appliedChanges r)"
    if call: "(BulkLoad typeName Update refs sent, BulkResults results') \<in> set (newCalls s s')"
      and k: "k < length refs" and ok: "result_success (results' ! k)"
    for typeName refs sent results' k
  proof -
    from call have refs: "refs = ?afters" and res: "results' = results"
      by (auto simp: tr split: if_splits)
    from k have kv: "k < length ?valid" by (simp add: refs)
    then have nth: "refs ! k = snd (?valid ! k)" by (simp add: refs)
    from k len have "(?afters ! k, results ! k) \<in> set (zip ?afters results)"
      by (intro zip_nth_member) (simp_all add: refs)
    with ok have "(?afters ! k, results ! k)
        \<in> set (filter (\<lambda>(i, r). result_success r) (zip ?afters results))"
      by (simp add: res)
    then have "?afters ! k \<in> set (successInstances updated)"
      unfolding succ by force
    then have "snd (?valid ! k) \<in> set (successInstances updated)"
      using nth by (simp add: refs)
    then have "list_ex (\<lambda>instance. heap s' instance = heap s' (snd (?valid ! k)))
        (successInstances updated)"
      unfolding list_ex_iff by blast
    moreover have "?valid ! k \<in> set ?valid" using kv by (rule nth_mem)
    ultimately have "?valid ! k \<in> set (filter (\<lambda>changeData.
        list_ex (\<lambda>instance. heap s' instance = heap s' (snd changeData)) (successInstances updated))
        ?valid)"
      by simp
    then have "Modification (fst (?valid ! k)) (snd (?valid ! k)) \<in> set (appliedChanges r)"
      unfolding applied by (simp only: set_map) blast
    with nth show ?thesis by simp
  qed
  from 1 2 3 4 show ?thesis by blast
qed

lemma deployModifyChanges_unfold:
  assumes "changesData \<noteq> []"
  shows "deployModifyChanges ev cl changesData s =
      (case updateInstances ev cl (typeApiName (instType (heap s (snd (hd changesData)))))
              (map snd (filter (sameApiName ev (heap s)) changesData)) s of
         (Inl e, s1) \<Rightarrow> (Inl e, s1)
       | (Inr updated, s1) \<Rightarrow>
           (Inr \<lparr>appliedChanges = map (\<lambda>d. Modification (fst d) (snd d))
                   (filter (\<lambda>changeData. list_ex (\<lambda>instance. heap s1 instance = heap s1 (snd changeData))
                              (successInstances updated))
                      (filter (sameApiName ev (heap s)) changesData)),
                 errors = map Error (errorMessages updated)
                   @ map (diffApiNameError ev (heap s1))
                       (filter (Not \<circ> sameApiName ev (heap s)) changesData)\<rparr>, s1))"
proof -
  from assms obtain d0 rest where ch: "changesData = d0 # rest"
    by (cases changesData) auto
  show ?thesis
    unfolding deployModifyChanges_def ch Let_def list.case list.sel partition_filter_conv prod.case
    by (rule refl)
qed

lemma deployModifyChanges_returns:
  assumes run: "deployModifyChanges ev cl changesData s = (res, s')"
    and nonempty: "changesData \<noteq> []"
    and resolved: "\<not> list_ex isRejected (newCalls s s')"
    and enough: "\<forall>typeName oper refs sent results.
        (BulkLoad typeName oper refs sent, BulkResults results) \<in> set (newCalls s s')
        \<longrightarrow> length refs \<le> length results"
  shows "\<exists>r. res = Inr r"
proof -
  let ?tn = "typeApiName (instType (heap s (snd (hd changesData))))"
  let ?afters = "map snd (filter (sameApiName ev (heap s)) changesData)"
  let ?sent = "instancesToUpdateRecords ev (map (heap s) ?afters)"
  obtain res1 s1 where u: "updateInstances ev cl ?tn ?afters s = (res1, s1)" by force
  from run u have s1: "s1 = s'"
    unfolding deployModifyChanges_unfold [OF nonempty] by (cases res1) auto
  have "\<exists>updated. res1 = Inr updated"
  proof (cases "?afters = []")
    case True
    with u show ?thesis by (auto simp: updateInstances_eq)
  next
    case False
    with updateInstances_log [OF u] have
      tr: "newCalls s s' = [bulkEntry cl (log s) ?tn Update ?afters ?sent]"
      by (simp add: s1 newCalls_def)
    show ?thesis
    proof (cases "bulkLoadOperation cl (log s) ?tn Update ?sent")
      case (Inl e)
      with resolved show ?thesis by (simp add: tr bulkEntry_def)
    next
      case (Inr results)
      then have "(BulkLoad ?tn Update ?afters ?sent, BulkResults results) \<in> set (newCalls s s')"
        by (simp add: tr bulkEntry_def)
      with enough have "length ?afters \<le> length results" by blast
      with u False Inr show ?thesis
        by (auto simp: updateInstances_eq Let_def)
    qed
  qed
  with run u show ?thesis
    unfolding deployModifyChanges_unfold [OF nonempty] by auto
qed

text \<open>
  C5. Take a group of modifications whose bulk call, if one is made, is not rejected and
  is answered with a result for every record. The deployment returns a result. Every bulk
  call is the update of the \<^verbatim>\<open>after\<close> instances of exactly the changes whose api names are
  equal, and it is made when there is such a change; every change whose api names differ
  adds exactly one error of its own after the per-record errors of the update; and a
  change for which the update reports success is among the applied modifications.
\<close>

theorem modify_with_changed_api_name_is_rejected:
  assumes run: "deployModifyChanges ev cl changesData s = (res, s')"
    and nonempty: "changesData \<noteq> []"
    and resolved: "\<not> list_ex isRejected (newCalls s s')"
    and enough: "\<forall>typeName oper refs sent results.
        (BulkLoad typeName oper refs sent, BulkResults results) \<in> set (newCalls s s')
        \<longrightarrow> length refs \<le> length results"
  shows "\<exists>r. res = Inr r
       \<and> (\<forall>typeName oper refs sent resp.
            (BulkLoad typeName oper refs sent, resp) \<in> set (newCalls s s')
            \<longrightarrow> oper = Update \<and> refs = map snd (filter (sameApiName ev (heap s)) changesData))
       \<and> (filter (sameApiName ev (heap s)) changesData \<noteq> [] \<longrightarrow>
            (\<exists>typeName sent results.
               newCalls s s' = [(BulkLoad typeName Update
                  (map snd (filter (sameApiName ev (heap s)) changesData)) sent, BulkResults results)]))
       \<and> (\<exists>messages.
            errors r = map Error messages
              @ map (diffApiNameError ev (heap s)) (filter (Not \<circ> sameApiName ev (heap s)) changesData)
            \<and> length messages = perRecordFailures (newCalls s s'))
       \<and> (\<forall>typeName refs sent results k.
            (BulkLoad typeName Update refs sent, BulkResults results) \<in> set (newCalls s s')
            \<longrightarrow> k < length refs \<longrightarrow> result_success (results ! k)
            \<longrightarrow> Modification (fst (filter (sameApiName ev (heap s)) changesData ! k)) (refs ! k)
                  \<in> set (appliedChanges r))"
proof -
  from deployModifyChanges_returns [OF run nonempty resolved enough]
  obtain r where r: "res = Inr r" by blast
  with run have "deployModifyChanges ev cl changesData s = (Inr r, s')" by simp
  from deployModifyChanges_outcome [OF this] r show ?thesis by blast
qed

theorem modify_with_changed_api_name_is_rejected_witness:
  "fst (deployModifyChanges exampleEnv (remoteStore [] []) [(4, 5), (6, 7)] exampleState)
     = Inr \<lparr>appliedChanges = [Modification 4 5],
            errors = [Error ''Failed to update as api name prev=Q and new=R are different'']\<rparr>
   \<and> newCalls exampleState
        (snd (deployModifyChanges exampleEnv (remoteStore [] []) [(4, 5), (6, 7)] exampleState))
     = [(BulkLoad ''Acc'' Update [5] [[(''fullName'', Str ''P''), (''Name'', Str ''new'')]],
         BulkResults [succeeded None])]
   \<and> filter (Not \<circ> sameApiName exampleEnv (heap exampleState)) [(4, 5), (6, 7)] = [(6, 7)]"
proof -
  let ?run = "deployModifyChanges exampleEnv (remoteStore [] []) [(4, 5), (6, 7)] exampleState"
  let ?diff = "filter (Not \<circ> sameApiName exampleEnv (heap exampleState)) [(4, 5), (6, 7)]"
  have calls: "newCalls exampleState (snd ?run)
     = [(BulkLoad ''Acc'' Update [5] [[(''fullName'', Str ''P''), (''Name'', Str ''new'')]],
         BulkResults [succeeded None])]"
    by code_simp
  have resolved: "\<not> list_ex isRejected (newCalls exampleState (snd ?run))"
    by (simp add: calls)
  have enough: "\<forall>typeName oper refs sent results.
        (BulkLoad typeName oper refs sent, BulkResults results) \<in> set (newCalls exampleState (snd ?run))
        \<longrightarrow> length refs \<le> length results"
    by (simp add: calls)
  have nonempty: "[(4, 5), (6, 7)] \<noteq> ([] :: (ref \<times> ref) list)" by simp
  from modify_with_changed_api_name_is_rejected [OF prod.collapse [symmetric] nonempty resolved enough]
  obtain r messages where r: "fst ?run = Inr r"
    and errs: "errors r = map Error messages @ map (diffApiNameError exampleEnv (heap exampleState)) ?diff"
    and success: "\<forall>typeName refs sent results k.
            (BulkLoad typeName Update refs sent, BulkResults results) \<in> set (newCalls exampleState (snd ?run))
            \<longrightarrow> k < length refs \<longrightarrow> result_success (results ! k)
            \<longrightarrow> Modification
                  (fst (filter (sameApiName exampleEnv (heap exampleState)) [(4, 5), (6, 7)] ! k)) (refs ! k)
                  \<in> set (appliedChanges r)"
    by blast
  have diff: "?diff = [(6, 7)]" by code_simp
  have "errors (case fst ?run of Inr x \<Rightarrow> x)
      = [Error ''Failed to update as api name prev=Q and new=R are different'']"
    and "appliedChanges (case fst ?run of Inr x \<Rightarrow> x) = [Modification 4 5]"
    by code_simp+
  with r have "r = \<lparr>appliedChanges = [Modification 4 5],
            errors = [Error ''Failed to update as api name prev=Q and new=R are different'']\<rparr>"
    by (cases r) simp
  with r calls diff show ?thesis by simp
qed

subsection \<open>The identity hash\<close>








lemma reordered_fields_same_hash_for_every_digest:
  assumes "safeJsonStringify ev = jsonStringify"
  shows "computeSaltoIdHash ev [''a'', ''b''] [(''a'', Str ''x'')]
       = computeSaltoIdHash ev [''b'', ''a''] [(''a'', Str ''x'')]"
proof -
  have "jsonStringify (idFieldsValues [''a'', ''b''] [(''a'', Str ''x'')])
      = jsonStringify (idFieldsValues [''b'', ''a''] [(''a'', Str ''x'')])"
    by code_simp
  then show ?thesis
    by (simp add: computeSaltoIdHash_def assms)
qed


subsection \<open>Nulls of a fetched record\<close>










end
